theory Spec2Isabelle
  imports Main
begin

section \<open>C-level primitives used by LogAccess.cc\<close>

text \<open>
  Bytes are \<^typ>\<open>char\<close> (8 bits). \<open>int64_t\<close> and \<open>int\<close> values are HOL integers;
  where the source can overflow, the two's-complement wrap-around is written out
  (\<open>wrap64\<close>). C's \<open>/\<close> and \<open>%\<close> truncate towards zero (\<open>c_div\<close>, \<open>c_mod\<close>).
\<close>

definition NUL :: char where
  "NUL = CHR 0x00"

definition wrap64 :: "int \<Rightarrow> int" where
  "wrap64 x = (x + 2 ^ 63) mod 2 ^ 64 - 2 ^ 63"

definition c_div :: "int \<Rightarrow> int \<Rightarrow> int" where
  "c_div a b = sgn a * sgn b * (\<bar>a\<bar> div \<bar>b\<bar>)"

definition c_mod :: "int \<Rightarrow> int \<Rightarrow> int" where
  "c_mod a b = sgn a * (\<bar>a\<bar> mod \<bar>b\<bar>)"

text \<open>
  The marshal buffer is a byte list, the read cursor (\<open>char **buf\<close>) an index into it.
  A read past the end of the list is undefined behaviour in the source; the model
  returns \<open>None\<close> there.
\<close>

type_synonym membuf = "char list"

definition c_str :: "membuf \<Rightarrow> nat \<Rightarrow> string option" where
  \<comment> \<open>the NUL-terminated string that starts at index \<open>p\<close>; \<open>::strlen\<close> is its length\<close>
  "c_str mem p =
     (if NUL \<in> set (drop p mem) then Some (takeWhile (\<lambda>c. c \<noteq> NUL) (drop p mem)) else None)"

definition ptr_add :: "nat \<Rightarrow> int \<Rightarrow> nat option" where
  "ptr_add p off = (if int p + off < 0 then None else Some (nat (int p + off)))"

definition c_memread :: "membuf \<Rightarrow> nat \<Rightarrow> int \<Rightarrow> char list option" where
  \<comment> \<open>the \<open>n\<close> bytes that \<open>memcpy\<close> reads from index \<open>p\<close>\<close>
  "c_memread mem p n =
     (if n < 0 \<or> int (length mem) < int p + n then None else Some (take (nat n) (drop p mem)))"

fun le_bytes_value :: "char list \<Rightarrow> int" where
  "le_bytes_value [] = 0"
| "le_bytes_value (b # bs) = of_char b + 256 * le_bytes_value bs"

text \<open>
  \<open>ink_strlcpy\<close> is tscore's \<open>strlcpy\<close> and is not among the sources; \<open>snprintf\<close> is the
  C library's. \<open>ink_strlcpy (dst, src, siz)\<close> and \<open>snprintf (dst, size, ...)\<close> store at most
  \<open>siz - 1\<close> characters and a terminating NUL, nothing when \<open>siz = 0\<close>. Their \<open>size_t\<close>
  parameter receives an \<open>int\<close>: a negative one converts to a huge unsigned value, so
  that nothing is truncated. The functions give the bytes stored from \<open>dst[0]\<close> on.
\<close>

definition ink_strlcpy :: "string \<Rightarrow> int \<Rightarrow> char list" where
  "ink_strlcpy src siz =
     (if siz = 0 then []
      else if siz < 0 then src @ [NUL]
      else take (nat (siz - 1)) src @ [NUL])"

definition snprintf_store :: "int \<Rightarrow> string \<Rightarrow> char list" where
  "snprintf_store siz s = ink_strlcpy s siz"

subsection \<open>Decimal conversions of the C library\<close>

fun dec_nat :: "nat \<Rightarrow> string" where
  "dec_nat n =
     (if n < 10 then [char_of (48 + int n)]
      else dec_nat (n div 10) @ [char_of (48 + int (n mod 10))])"

declare dec_nat.simps [simp del]

definition dec_int :: "int \<Rightarrow> string" where
  \<comment> \<open>what \<open>printf ("%" PRId64)\<close> prints\<close>
  "dec_int v = (if v < 0 then CHR ''-'' # dec_nat (nat (- v)) else dec_nat (nat v))"

definition printf_03d :: "int \<Rightarrow> string" where
  \<comment> \<open>what \<open>printf ("%03d")\<close> prints: zero padding to width 3, the sign included\<close>
  "printf_03d v =
     (if v < 0 then CHR ''-'' # replicate (2 - length (dec_nat (nat (- v)))) CHR ''0''
                      @ dec_nat (nat (- v))
      else replicate (3 - length (dec_nat (nat v))) CHR ''0'' @ dec_nat (nat v))"

section \<open>Layout constants and helpers of LogAccess.h\<close>

text \<open>
  Modelled from the spec: the header LogAccess.h and tscore's alignment macros are not
  among the sources. The spec fixes the alignment unit (8 bytes), the padding of a
  string to the next alignment boundary after its NUL terminator, and the default
  marker that replaces a null or empty string.
\<close>

definition INK_MIN_ALIGN :: int where
  "INK_MIN_ALIGN = 8"

definition INK_ALIGN_DEFAULT :: "int \<Rightarrow> int" where
  "INK_ALIGN_DEFAULT n = ((n + (INK_MIN_ALIGN - 1)) div INK_MIN_ALIGN) * INK_MIN_ALIGN"

definition round_strlen :: "int \<Rightarrow> int" where
  "round_strlen len = INK_ALIGN_DEFAULT len"

definition DEFAULT_STR :: string where
  "DEFAULT_STR = ''-''"

definition DEFAULT_STR_LEN :: int where
  "DEFAULT_STR_LEN = 1"

definition LogAccess_strlen :: "string option \<Rightarrow> int" where
  \<comment> \<open>\<open>LogAccess::strlen\<close>: the padded width a string occupies in the buffer\<close>
  "LogAccess_strlen str =
     (case str of
        None \<Rightarrow> round_strlen (int (length DEFAULT_STR) + 1)
      | Some s \<Rightarrow>
          if s = [] then round_strlen (int (length DEFAULT_STR) + 1)
          else round_strlen (int (length s) + 1))"

definition MARSHAL_RECORD_LENGTH :: int where
  "MARSHAL_RECORD_LENGTH = 32"

section \<open>The decode engine\<close>

text \<open>
  Every \<open>unmarshal_*\<close> function returns its \<open>int\<close> result (\<open>ret\<close>), the bytes it has
  stored into the destination from \<open>dest[0]\<close> on (\<open>written\<close>), and the cursor after the
  call (\<open>cur\<close>).
\<close>

record unmarshal_res =
  ret :: int
  written :: "char list"
  cur :: nat

definition unmarshal_int :: "membuf \<Rightarrow> nat \<Rightarrow> (int \<times> nat) option" where
  "unmarshal_int mem p =
     (if p + nat INK_MIN_ALIGN \<le> length mem
      then Some (wrap64 (le_bytes_value (take 8 (drop p mem))), p + nat INK_MIN_ALIGN)
      else None)"

function itoa_digits :: "int \<Rightarrow> char list \<Rightarrow> char list" where
  "itoa_digits val acc =
     (if c_div val 10 \<noteq> 0
      then itoa_digits (c_div val 10) (char_of (48 + c_mod val 10) # acc)
      else char_of (48 + c_mod val 10) # acc)"
  by pat_completeness auto
termination
  by (relation "measure (\<lambda>(v, acc). nat \<bar>v\<bar>)")
     (auto simp: c_div_def abs_mult sgn_if split: if_splits)

declare itoa_digits.simps [simp del]

definition unmarshal_itoa :: "int \<Rightarrow> int \<Rightarrow> char \<Rightarrow> char list" where
  \<comment> \<open>the characters stored, ending at \<open>dest\<close>; the result of the source is their number\<close>
  "unmarshal_itoa val field_width leading_char =
     (let negative = (val < 0);
          v = (if negative then wrap64 (- val) else val);
          digits = itoa_digits v [];
          padded = replicate (nat (field_width - int (length digits))) leading_char @ digits
      in if negative then CHR ''-'' # padded else padded)"

definition unmarshal_int_to_str :: "membuf \<Rightarrow> nat \<Rightarrow> int \<Rightarrow> unmarshal_res option" where
  \<comment> \<open>\<open>unmarshal_itoa\<close> with its default arguments: no field width\<close>
  "unmarshal_int_to_str mem p len =
     (case unmarshal_int mem p of
        None \<Rightarrow> None
      | Some (val, p') \<Rightarrow>
          (let val_buf = unmarshal_itoa val 0 CHR '' ''; val_len = int (length val_buf)
           in if val_len < len
              then Some \<lparr>ret = val_len, written = val_buf, cur = p'\<rparr>
              else Some \<lparr>ret = - 1, written = [], cur = p'\<rparr>))"

definition unmarshal_http_status :: "membuf \<Rightarrow> nat \<Rightarrow> int \<Rightarrow> unmarshal_res option" where
  "unmarshal_http_status mem p len =
     (case unmarshal_int mem p of
        None \<Rightarrow> None
      | Some (val, p') \<Rightarrow>
          (let val_buf = unmarshal_itoa val 3 CHR ''0''; val_len = int (length val_buf)
           in if val_len < len
              then Some \<lparr>ret = val_len, written = val_buf, cur = p'\<rparr>
              else Some \<lparr>ret = - 1, written = [], cur = p'\<rparr>))"

definition unmarshal_http_version :: "membuf \<Rightarrow> nat \<Rightarrow> int \<Rightarrow> unmarshal_res option" where
  \<comment> \<open>\<open>val_len = p - val_buf\<close> is taken before \<open>p\<close> has moved past the second number\<close>
  "unmarshal_http_version mem p len =
     (case unmarshal_int_to_str mem p (128 - 5) of
        None \<Rightarrow> None
      | Some r1 \<Rightarrow>
          if ret r1 < 0 then Some \<lparr>ret = - 1, written = [], cur = cur r1\<rparr>
          else
            (let p_off = 5 + ret r1 + 1
             in case unmarshal_int_to_str mem (cur r1) (128 - p_off) of
                  None \<Rightarrow> None
                | Some r2 \<Rightarrow>
                    if ret r2 < 0 then Some \<lparr>ret = - 1, written = [], cur = cur r2\<rparr>
                    else
                      (let val_buf = ''HTTP/'' @ written r1 @ ''.'' @ written r2;
                           val_len = p_off
                       in if val_len < len
                          then Some \<lparr>ret = val_len, written = take (nat val_len) val_buf,
                                      cur = cur r2\<rparr>
                          else Some \<lparr>ret = - 1, written = [], cur = cur r2\<rparr>)))"

definition hex_table :: string where
  "hex_table = ''0123456789abcdef?''"

fun itox_digits :: "nat \<Rightarrow> int \<Rightarrow> char list \<Rightarrow> char list" where
  \<comment> \<open>\<open>val & 0xf\<close> and the arithmetic shift \<open>val >>= 4\<close>, sixteen times\<close>
  "itox_digits 0 val acc = acc"
| "itox_digits (Suc k) val acc = itox_digits k (val div 16) (hex_table ! nat (val mod 16) # acc)"

definition unmarshal_itox :: "int \<Rightarrow> int \<Rightarrow> char \<Rightarrow> char list" where
  "unmarshal_itox val field_width leading_char =
     (let digits = itox_digits 16 val []
      in replicate (nat (field_width - int (length digits))) leading_char @ digits)"

definition unmarshal_int_to_str_hex :: "membuf \<Rightarrow> nat \<Rightarrow> int \<Rightarrow> unmarshal_res option" where
  "unmarshal_int_to_str_hex mem p len =
     (case unmarshal_int mem p of
        None \<Rightarrow> None
      | Some (val, p') \<Rightarrow>
          (let val_buf = unmarshal_itox val 0 CHR '' ''; val_len = int (length val_buf)
           in if val_len < len
              then Some \<lparr>ret = val_len, written = val_buf, cur = p'\<rparr>
              else Some \<lparr>ret = - 1, written = [], cur = p'\<rparr>))"

subsection \<open>JSON escaping\<close>

definition NO_ESCAPE :: char where
  "NO_ESCAPE = CHR 0x00"

definition LONG_ESCAPE :: char where
  "LONG_ESCAPE = CHR 0x01"

definition LUT_table :: "nat \<Rightarrow> char" where
  \<comment> \<open>the constructor \<open>EscLookup::_LUT::_LUT\<close> run on the zero-initialised static table\<close>
  "LUT_table =
     (let t0 = (\<lambda>i. NO_ESCAPE);
          t1 = fold (\<lambda>i t. t(i := LONG_ESCAPE)) [0..<32] t0;
          t2 = fold (\<lambda>i t. t(i := LONG_ESCAPE)) [127..<256] t1
      in t2(8 := CHR ''b'', 9 := CHR ''t'', 10 := CHR ''n'', 12 := CHR ''f'', 13 := CHR ''r'',
            92 := CHR 0x5C, 34 := CHR 0x22, 47 := CHR ''/''))"

definition EscLookup_result :: "char \<Rightarrow> char" where
  "EscLookup_result c = LUT_table (of_char c)"

definition nibble :: "int \<Rightarrow> char" where
  "nibble nib = (if nib \<ge> 10 then char_of (97 + (nib - 10)) else char_of (48 + nib))"

fun escape_json_loop ::
  "bool \<Rightarrow> int \<Rightarrow> char list \<Rightarrow> nat \<Rightarrow> int \<Rightarrow> char list \<Rightarrow> (int \<times> char list) option" where
  \<comment> \<open>\<open>dest\<close>: is the destination non-null; the \<open>nat\<close> counts the iterations left\<close>
  "escape_json_loop dest len buf 0 escaped_len out = Some (escaped_len, out)"
| "escape_json_loop dest len [] (Suc k) escaped_len out = None"
| "escape_json_loop dest len (c # buf) (Suc k) escaped_len out =
     (if EscLookup_result c = NO_ESCAPE then
        (if dest \<and> escaped_len + 1 > len then Some (escaped_len, out)
         else escape_json_loop dest len buf k (escaped_len + 1)
                (if dest then out @ [c] else out))
      else if EscLookup_result c = LONG_ESCAPE then
        (if dest \<and> escaped_len + 6 > len then Some (escaped_len, out)
         else escape_json_loop dest len buf k (escaped_len + 6)
                (if dest
                 then out @ [CHR 0x5C, CHR ''u'', CHR ''0'', CHR ''0'',
                             nibble (of_char c div 16), nibble (of_char c mod 16)]
                 else out))
      else
        (if dest \<and> escaped_len + 2 > len then Some (escaped_len, out)
         else escape_json_loop dest len buf k (escaped_len + 2)
                (if dest then out @ [CHR 0x5C, EscLookup_result c] else out)))"

definition escape_json :: "bool \<Rightarrow> char list \<Rightarrow> int \<Rightarrow> (int \<times> char list) option" where
  \<comment> \<open>\<open>buf\<close>: the bytes from the source pointer to the end of the buffer\<close>
  "escape_json dest buf len = escape_json_loop dest len buf (nat len) 0 []"

subsection \<open>Strings, slices and records\<close>

text \<open>
  \<open>LogSlice::toStrOffset\<close> is not among the sources: the slice carries its resolution,
  a function from the string length to the pair (resolved length, offset).
\<close>

record LogSlice =
  m_enable :: bool
  toStrOffset :: "int \<Rightarrow> int \<times> int"

datatype LogEscapeType = LOG_ESCAPE_NONE | LOG_ESCAPE_JSON

definition slice_of :: "LogSlice option \<Rightarrow> LogSlice option" where
  \<comment> \<open>the test \<open>slice && slice->m_enable\<close>\<close>
  "slice_of slice = (case slice of None \<Rightarrow> None | Some s \<Rightarrow> if m_enable s then Some s else None)"

definition unmarshal_str_json ::
  "membuf \<Rightarrow> nat \<Rightarrow> int \<Rightarrow> LogSlice option \<Rightarrow> unmarshal_res option" where
  "unmarshal_str_json mem p len slice =
     (case c_str mem p of
        None \<Rightarrow> None
      | Some val \<Rightarrow>
          (case escape_json False (drop p mem) (int (length val)) of
             None \<Rightarrow> None
           | Some (escaped_len, _) \<Rightarrow>
               (let p' = p + nat (LogAccess_strlen (Some val))
                in case slice_of slice of
                     Some s \<Rightarrow>
                       (case toStrOffset s escaped_len of
                          (n, offset) \<Rightarrow>
                            if n \<le> 0 then Some \<lparr>ret = 0, written = [], cur = p'\<rparr>
                            else if n \<ge> len then Some \<lparr>ret = - 1, written = [], cur = p'\<rparr>
                            else
                              (case ptr_add p offset of
                                 None \<Rightarrow> None
                               | Some q \<Rightarrow>
                                   (case escape_json True (drop q mem) n of
                                      None \<Rightarrow> None
                                    | Some (r, out) \<Rightarrow>
                                        Some \<lparr>ret = r, written = out, cur = p'\<rparr>)))
                   | None \<Rightarrow>
                       if escaped_len < len
                       then (case escape_json True (drop p mem) escaped_len of
                               None \<Rightarrow> None
                             | Some (r, out) \<Rightarrow>
                                 Some \<lparr>ret = escaped_len, written = out, cur = p'\<rparr>)
                       else Some \<lparr>ret = - 1, written = [], cur = p'\<rparr>)))"

definition unmarshal_str ::
  "membuf \<Rightarrow> nat \<Rightarrow> int \<Rightarrow> LogSlice option \<Rightarrow> LogEscapeType \<Rightarrow> unmarshal_res option" where
  "unmarshal_str mem p len slice escape_type =
     (if escape_type = LOG_ESCAPE_JSON then unmarshal_str_json mem p len slice
      else
        case c_str mem p of
          None \<Rightarrow> None
        | Some val \<Rightarrow>
            (let val_len = int (length val);
                 p' = p + nat (LogAccess_strlen (Some val))
             in case slice_of slice of
                  Some s \<Rightarrow>
                    (case toStrOffset s val_len of
                       (n, offset) \<Rightarrow>
                         if n \<le> 0 then Some \<lparr>ret = 0, written = [], cur = p'\<rparr>
                         else if n \<ge> len then Some \<lparr>ret = - 1, written = [], cur = p'\<rparr>
                         else
                           (case ptr_add p offset of
                              None \<Rightarrow> None
                            | Some q \<Rightarrow>
                                (case c_memread mem q n of
                                   None \<Rightarrow> None
                                 | Some bs \<Rightarrow> Some \<lparr>ret = n, written = bs, cur = p'\<rparr>)))
                | None \<Rightarrow>
                    if val_len < len
                    then Some \<lparr>ret = val_len, written = val, cur = p'\<rparr>
                    else Some \<lparr>ret = - 1, written = [], cur = p'\<rparr>))"

definition unmarshal_record :: "membuf \<Rightarrow> nat \<Rightarrow> int \<Rightarrow> unmarshal_res option" where
  "unmarshal_record mem p len =
     (case c_str mem p of
        None \<Rightarrow> None
      | Some val \<Rightarrow>
          (let val_len = int (length val); p' = p + nat MARSHAL_RECORD_LENGTH
           in if val_len < len
              then Some \<lparr>ret = val_len, written = val, cur = p'\<rparr>
              else Some \<lparr>ret = - 1, written = [], cur = p'\<rparr>))"

definition unmarshal_ttmsf :: "membuf \<Rightarrow> nat \<Rightarrow> int \<Rightarrow> unmarshal_res option" where
  "unmarshal_ttmsf mem p len =
     (case unmarshal_int mem p of
        None \<Rightarrow> None
      | Some (val, p') \<Rightarrow>
          (let txt = dec_int (c_div val 1000) @ ''.''
                       @ printf_03d (c_mod (if val < 0 then wrap64 (- val) else val) 1000);
               val_len = int (length txt)
           in if val_len \<ge> len
              then Some \<lparr>ret = - 1, written = snprintf_store len txt, cur = p'\<rparr>
              else Some \<lparr>ret = val_len, written = snprintf_store len txt, cur = p'\<rparr>))"

text \<open>
  \<open>LogUtils::timestamp_to_date_str\<close>, \<open>timestamp_to_time_str\<close> and
  \<open>timestamp_to_netscape_str\<close> are not among the sources: the three date decoders take
  the formatter as the parameter \<open>fmt\<close>.
\<close>

definition unmarshal_int_to_date_str ::
  "(int \<Rightarrow> string) \<Rightarrow> membuf \<Rightarrow> nat \<Rightarrow> int \<Rightarrow> unmarshal_res option" where
  "unmarshal_int_to_date_str fmt mem p len =
     (case unmarshal_int mem p of
        None \<Rightarrow> None
      | Some (val, p') \<Rightarrow>
          (let strval = fmt val; strlen = int (length strval)
           in if strlen > len
              then Some \<lparr>ret = - 1, written = [], cur = p'\<rparr>
              else Some \<lparr>ret = strlen, written = strval, cur = p'\<rparr>))"

definition unmarshal_http_text ::
  "membuf \<Rightarrow> nat \<Rightarrow> int \<Rightarrow> LogSlice option \<Rightarrow> LogEscapeType \<Rightarrow> unmarshal_res option" where
  "unmarshal_http_text mem p len slice escape_type =
     (case unmarshal_str mem p len None escape_type of
        None \<Rightarrow> None
      | Some r1 \<Rightarrow>
          if ret r1 < 0 then Some \<lparr>ret = - 1, written = written r1, cur = cur r1\<rparr>
          else
            (case unmarshal_str mem (cur r1) (len - ret r1 - 1) slice escape_type of
               None \<Rightarrow> None
             | Some r2 \<Rightarrow>
                 if ret r2 < 0
                 then Some \<lparr>ret = - 1, written = written r1 @ '' '' @ written r2, cur = cur r2\<rparr>
                 else
                   (case unmarshal_http_version mem (cur r2) (len - ret r1 - ret r2 - 2) of
                      None \<Rightarrow> None
                    | Some r3 \<Rightarrow>
                        Some \<lparr>ret = (if ret r3 < 0 then - 1 else ret r1 + ret r2 + ret r3 + 2),
                              written = written r1 @ '' '' @ written r2 @ '' '' @ written r3,
                              cur = cur r3\<rparr>)))"

subsection \<open>Alias maps\<close>

text \<open>
  Modelled from the spec: \<open>LogFieldAliasMap::asString\<close> is declared in
  LogFieldAliasMap.h, which is not among the sources. An alias map is a table from
  integer codes to labels; a lookup gives the label when it fits the destination
  (with its terminator), reports a too small buffer when it does not, and reports an
  invalid code on a miss. The result is the status, the bytes stored and the number
  of characters.
\<close>

datatype alias_status = ALL_OK | INVALID_INT | BUFFER_TOO_SMALL

type_synonym LogFieldAliasMap = "int \<rightharpoonup> string"

definition asString :: "LogFieldAliasMap \<Rightarrow> int \<Rightarrow> int \<Rightarrow> alias_status \<times> char list \<times> int" where
  "asString m key bufLen =
     (case m key of
        None \<Rightarrow> (INVALID_INT, [], 0)
      | Some name \<Rightarrow>
          if int (length name) < bufLen
          then (ALL_OK, ink_strlcpy name bufLen, int (length name))
          else (BUFFER_TOO_SMALL, [], 0))"

definition unmarshal_with_map ::
  "int \<Rightarrow> int \<Rightarrow> LogFieldAliasMap \<Rightarrow> string option \<Rightarrow> int \<times> char list" where
  \<comment> \<open>the result and the bytes stored into \<open>dest\<close>\<close>
  "unmarshal_with_map code len m msg =
     (case asString m code len of
        (INVALID_INT, w, codeStrLen) \<Rightarrow>
          (case msg of
             Some pre \<Rightarrow>
               (let txt = pre @ ''('' @ dec_int code @ '')'';
                    invalidCodeMsg = take (64 - 1) txt;
                    n = int (length txt)
                in if n < 64 \<and> n < len then (n, ink_strlcpy invalidCodeMsg len) else (- 1, w))
           | None \<Rightarrow> (- 1, w))
      | (BUFFER_TOO_SMALL, w, codeStrLen) \<Rightarrow> (- 1, w)
      | (ALL_OK, w, codeStrLen) \<Rightarrow> (codeStrLen, w))"

definition unmarshal_alias ::
  "string \<Rightarrow> membuf \<Rightarrow> nat \<Rightarrow> int \<Rightarrow> LogFieldAliasMap \<Rightarrow> unmarshal_res option" where
  \<comment> \<open>the common body of the five wrappers: \<open>unmarshal_with_map (unmarshal_int (buf), ...)\<close>\<close>
  "unmarshal_alias pre mem p len m =
     (case unmarshal_int mem p of
        None \<Rightarrow> None
      | Some (code, p') \<Rightarrow>
          (case unmarshal_with_map code len m (Some pre) of
             (r, w) \<Rightarrow> Some \<lparr>ret = r, written = w, cur = p'\<rparr>))"

definition unmarshal_hierarchy ::
  "membuf \<Rightarrow> nat \<Rightarrow> int \<Rightarrow> LogFieldAliasMap \<Rightarrow> unmarshal_res option" where
  "unmarshal_hierarchy = unmarshal_alias ''INVALID_CODE''"

definition unmarshal_finish_status ::
  "membuf \<Rightarrow> nat \<Rightarrow> int \<Rightarrow> LogFieldAliasMap \<Rightarrow> unmarshal_res option" where
  "unmarshal_finish_status = unmarshal_alias ''UNKNOWN_FINISH_CODE''"

definition unmarshal_cache_code ::
  "membuf \<Rightarrow> nat \<Rightarrow> int \<Rightarrow> LogFieldAliasMap \<Rightarrow> unmarshal_res option" where
  "unmarshal_cache_code = unmarshal_alias ''ERROR_UNKNOWN''"

definition unmarshal_cache_hit_miss ::
  "membuf \<Rightarrow> nat \<Rightarrow> int \<Rightarrow> LogFieldAliasMap \<Rightarrow> unmarshal_res option" where
  "unmarshal_cache_hit_miss = unmarshal_alias ''HIT_MISS_UNKNOWN''"

definition unmarshal_cache_write_code ::
  "membuf \<Rightarrow> nat \<Rightarrow> int \<Rightarrow> LogFieldAliasMap \<Rightarrow> unmarshal_res option" where
  "unmarshal_cache_write_code = unmarshal_alias ''UNKNOWN_CACHE_WRITE_CODE''"

subsection \<open>IP addresses\<close>

text \<open>
  The layout of the encoded address (the structs \<open>LogFieldIp\<close>, \<open>LogFieldIp4\<close>,
  \<open>LogFieldIp6\<close>, \<open>LogFieldUn\<close> of the absent header) and the renderers \<open>ats_ip_ntop\<close>
  and \<open>ats_ip_to_hex\<close> of tscore are not among the sources. The layout is the
  parameter \<open>lay\<close>: how the family-tagged field at the cursor is read, and the four
  \<open>sizeof\<close> values. \<open>ats_ip_ntop\<close> gives whether it returned \<open>dest\<close> (and not null) and
  the bytes it stored; \<open>ats_ip_to_hex\<close> gives its \<open>int\<close> result and the bytes it stored.
\<close>

datatype ip_family = AF_INET | AF_INET6 | AF_UNIX | AF_UNSPEC  \<comment> \<open>\<open>AF_UNSPEC\<close>: any other family\<close>

datatype IpEndpoint = Ip4 "char list" | Ip6 "char list" | UnixPath "char list" | InvalidIp

record ip_layout =
  read_field :: "membuf \<Rightarrow> nat \<Rightarrow> (ip_family \<times> char list) option"
  sizeof_ip :: int
  sizeof_ip4 :: int
  sizeof_ip6 :: int
  sizeof_un :: int

definition unmarshal_ip :: "ip_layout \<Rightarrow> membuf \<Rightarrow> nat \<Rightarrow> (IpEndpoint \<times> int \<times> nat) option" where
  \<comment> \<open>the endpoint, the result \<open>len\<close> and the cursor after the call\<close>
  "unmarshal_ip lay mem p =
     (case read_field lay mem p of
        None \<Rightarrow> None
      | Some (fam, payload) \<Rightarrow>
          (case (case fam of
                   AF_INET \<Rightarrow> (Ip4 payload, sizeof_ip4 lay)
                 | AF_INET6 \<Rightarrow> (Ip6 payload, sizeof_ip6 lay)
                 | AF_UNIX \<Rightarrow> (UnixPath payload, sizeof_un lay)
                 | AF_UNSPEC \<Rightarrow> (InvalidIp, sizeof_ip lay)) of
             (ip, len) \<Rightarrow>
               Some (ip, INK_ALIGN_DEFAULT len, p + nat (INK_ALIGN_DEFAULT len))))"

definition unmarshal_ip_to_str ::
  "ip_layout \<Rightarrow> (IpEndpoint \<Rightarrow> int \<Rightarrow> bool \<times> char list) \<Rightarrow> membuf \<Rightarrow> nat \<Rightarrow> int
     \<Rightarrow> unmarshal_res option" where
  "unmarshal_ip_to_str lay ats_ip_ntop mem p len =
     (if len > 0 then
        (case unmarshal_ip lay mem p of
           None \<Rightarrow> None
         | Some (ip, n, p') \<Rightarrow>
             if ip = InvalidIp then Some \<lparr>ret = 1, written = ''0'', cur = p'\<rparr>
             else
               (case ats_ip_ntop ip len of
                  (True, stored) \<Rightarrow>
                    (case c_str stored 0 of
                       None \<Rightarrow> None
                     | Some txt \<Rightarrow> Some \<lparr>ret = int (length txt), written = stored, cur = p'\<rparr>)
                | (False, stored) \<Rightarrow> Some \<lparr>ret = - 1, written = stored, cur = p'\<rparr>))
      else Some \<lparr>ret = - 1, written = [], cur = p\<rparr>)"

definition unmarshal_ip_to_hex ::
  "ip_layout \<Rightarrow> (IpEndpoint \<Rightarrow> int \<Rightarrow> int \<times> char list) \<Rightarrow> membuf \<Rightarrow> nat \<Rightarrow> int
     \<Rightarrow> unmarshal_res option" where
  "unmarshal_ip_to_hex lay ats_ip_to_hex mem p len =
     (if len > 0 then
        (case unmarshal_ip lay mem p of
           None \<Rightarrow> None
         | Some (ip, n, p') \<Rightarrow>
             if ip = InvalidIp then Some \<lparr>ret = 1, written = ''0'', cur = p'\<rparr>
             else
               (case ats_ip_to_hex ip len of
                  (res, stored) \<Rightarrow> Some \<lparr>ret = res, written = stored, cur = p'\<rparr>))
      else Some \<lparr>ret = - 1, written = [], cur = p\<rparr>)"

section \<open>The format resolver\<close>

text \<open>
  Modelled from the spec: \<open>LogFormat::parse_format_string\<close> and
  \<open>LogFormat::parse_symbol_string\<close> are not among the sources. The first divides a
  format string into the printf-style template, with the placeholders \<open>%<name>\<close>
  removed, and the ordered list of the field symbols; its result is the number of
  fields. The second looks every symbol up in the registry of field names and counts
  those it resolves.
\<close>

fun scan_format :: "string option \<Rightarrow> string \<Rightarrow> string \<times> string list" where
  \<comment> \<open>\<open>None\<close>: in literal text; \<open>Some acc\<close>: inside a placeholder, \<open>acc\<close> read so far\<close>
  "scan_format None [] = ([], [])"
| "scan_format None [c] = ([c], [])"
| "scan_format None (c # d # cs) =
     (if c = CHR ''%'' \<and> d = CHR ''<'' then scan_format (Some []) cs
      else (case scan_format None (d # cs) of (t, fs) \<Rightarrow> (c # t, fs)))"
| "scan_format (Some acc) [] = ([], [])"
| "scan_format (Some acc) (c # cs) =
     (if c = CHR ''>'' then (case scan_format None cs of (t, fs) \<Rightarrow> (t, rev acc # fs))
      else scan_format (Some (c # acc)) cs)"

definition parse_format_string :: "string \<Rightarrow> int \<times> string \<times> string list" where
  "parse_format_string format_str =
     (case scan_format None format_str of
        (printf_str, field_list) \<Rightarrow> (int (length field_list), printf_str, field_list))"

definition parse_symbol_string :: "string list \<Rightarrow> string list \<Rightarrow> int \<times> string list" where
  "parse_symbol_string registry field_list =
     (let resolved = filter (\<lambda>f. f \<in> set registry) field_list in (int (length resolved), resolved))"

text \<open>
  \<open>resolve_logfield_string\<close>. The two marshal passes and
  \<open>LogBuffer::resolve_custom_entry\<close> are not among the sources: \<open>resolve_entry\<close> stands
  for them and gives the resolved text, whose length is \<open>bytes_resolved\<close>. A null
  pointer is \<open>None\<close>.
\<close>

definition resolve_logfield_string ::
  "string list \<Rightarrow> ('c \<Rightarrow> string \<Rightarrow> string list \<Rightarrow> string) \<Rightarrow> 'c option \<Rightarrow> string option
     \<Rightarrow> string option" where
  "resolve_logfield_string registry resolve_entry context format_str =
     (case context of
        None \<Rightarrow> None
      | Some ctx \<Rightarrow>
          (case format_str of
             None \<Rightarrow> None
           | Some fmt \<Rightarrow>
               (case parse_format_string fmt of
                  (n_fields, printf_str, fields_str) \<Rightarrow>
                    if n_fields = 0 then Some fmt
                    else
                      (case parse_symbol_string registry fields_str of
                         (field_count, field_list) \<Rightarrow>
                           if field_count \<noteq> n_fields then None
                           else
                             (let result = resolve_entry ctx printf_str field_list
                              in if length result = 0 then None else Some result)))))"

section \<open>The attribute context\<close>

text \<open>
  The fields of \<open>LogAccess\<close> and of the state machine that the modelled functions read.
  The arena and the other character arrays are one store from addresses to bytes; a
  \<open>char *\<close> member is an address, \<open>None\<close> when null.
\<close>

record HTTPHdr =
  method_get :: string
  version_major :: int
  version_minor :: int

record LogAccess =
  m_http_sm :: bool
  pp_authority :: "string option"
  m_client_request :: "HTTPHdr option"
  store :: "nat \<Rightarrow> char"
  m_client_req_url_str :: "nat option"
  m_client_req_url_len :: int
  m_client_req_url_canon_str :: "nat option"
  m_client_req_url_canon_len :: int
  m_client_req_unmapped_url_canon_str :: "nat option"
  m_client_req_unmapped_url_canon_len :: int
  m_client_req_unmapped_url_path_str :: "nat option"
  m_client_req_unmapped_url_path_len :: int
  m_client_req_unmapped_url_host_str :: "nat option"
  m_client_req_unmapped_url_host_len :: int

subsection \<open>Marshalling\<close>

text \<open>
  A marshal function takes the context and whether \<open>buf\<close> is non-null; it returns its
  \<open>int\<close> result and the bytes it has stored into \<open>buf\<close> (none in the query mode).
\<close>

fun le_bytes :: "nat \<Rightarrow> int \<Rightarrow> char list" where
  "le_bytes 0 v = []"
| "le_bytes (Suc k) v = char_of (v mod 256) # le_bytes k (v div 256)"

definition marshal_int :: "int \<Rightarrow> char list" where
  \<comment> \<open>the inline \<open>LogAccess::marshal_int\<close>: the \<open>int64_t\<close> stored in the host's byte order\<close>
  "marshal_int source = le_bytes 8 source"

definition marshal_str :: "string option \<Rightarrow> int \<Rightarrow> char list" where
  "marshal_str source padded_len =
     (let src = (case source of
                   None \<Rightarrow> DEFAULT_STR
                 | Some s \<Rightarrow> if s = [] \<or> padded_len = 0 then DEFAULT_STR else s)
      in ink_strlcpy src padded_len)"

definition marshal_mem :: "char list option \<Rightarrow> int \<Rightarrow> int \<Rightarrow> char list" where
  \<comment> \<open>\<open>source\<close>: the bytes at the source pointer; \<open>memcpy\<close> and the terminating NUL\<close>
  "marshal_mem source actual_len padded_len =
     (case source of
        None \<Rightarrow> take (nat DEFAULT_STR_LEN) DEFAULT_STR @ [NUL]
      | Some bs \<Rightarrow>
          if take 1 bs = [NUL] \<or> actual_len = 0
          then take (nat DEFAULT_STR_LEN) DEFAULT_STR @ [NUL]
          else take (nat actual_len) bs @ [NUL])"

definition store_read :: "(nat \<Rightarrow> char) \<Rightarrow> nat option \<Rightarrow> int \<Rightarrow> char list option" where
  "store_read h ptr n = (case ptr of None \<Rightarrow> None | Some a \<Rightarrow> Some (map h [a ..< a + nat n + 1]))"

definition marshal_proxy_protocol_authority :: "LogAccess \<Rightarrow> bool \<Rightarrow> int \<times> char list" where
  "marshal_proxy_protocol_authority ctx buf =
     (if buf \<and> m_http_sm ctx then
        (case pp_authority ctx of
           Some authority \<Rightarrow>
             (let len = int (length authority) in (len, marshal_str (Some authority) len))
         | None \<Rightarrow> (0, []))
      else (0, []))"

definition marshal_client_req_http_method :: "LogAccess \<Rightarrow> bool \<Rightarrow> int \<times> char list" where
  "marshal_client_req_http_method ctx buf =
     (let str = (case m_client_request ctx of None \<Rightarrow> None | Some h \<Rightarrow> Some (method_get h));
          n = (case str of None \<Rightarrow> 0 | Some s \<Rightarrow> int (length s));
          plen = (if n \<noteq> 0 then round_strlen (n + 1) else INK_MIN_ALIGN)
      in (plen, if buf then marshal_mem str n plen else []))"

definition marshal_client_req_url :: "LogAccess \<Rightarrow> bool \<Rightarrow> int \<times> char list" where
  "marshal_client_req_url ctx buf =
     (let len = round_strlen (m_client_req_url_len ctx + 1)
      in (len,
          if buf
          then marshal_mem (store_read (store ctx) (m_client_req_url_str ctx)
                              (m_client_req_url_len ctx))
                 (m_client_req_url_len ctx) len
          else []))"

definition marshal_client_req_http_version :: "LogAccess \<Rightarrow> bool \<Rightarrow> int \<times> char list" where
  "marshal_client_req_http_version ctx buf =
     (2 * INK_MIN_ALIGN,
      if buf
      then (case m_client_request ctx of
              Some h \<Rightarrow> marshal_int (version_major h) @ marshal_int (version_minor h)
            | None \<Rightarrow> marshal_int 0 @ marshal_int 0)
      else [])"

definition place_at :: "char list \<Rightarrow> int \<Rightarrow> char list \<Rightarrow> char list" where
  \<comment> \<open>the bytes \<open>bs\<close> stored at \<open>&buf[offset]\<close>, after what \<open>buf\<close> holds already\<close>
  "place_at out offset bs = take (nat offset) (out @ replicate (nat offset) NUL) @ bs"

definition marshal_client_req_text :: "LogAccess \<Rightarrow> bool \<Rightarrow> int \<times> char list" where
  "marshal_client_req_text ctx buf =
     (let len = fst (marshal_client_req_http_method ctx False)
                + fst (marshal_client_req_url ctx False)
                + fst (marshal_client_req_http_version ctx False)
      in if buf then
           (let r1 = marshal_client_req_http_method ctx True;
                o1 = 0 + fst r1;
                r2 = marshal_client_req_url ctx True;
                o2 = o1 + fst r2;
                r3 = marshal_client_req_http_version ctx True;
                o3 = o2 + fst r3
            in (o3, place_at (place_at (snd r1) o1 (snd r2)) o2 (snd r3)))
         else (len, []))"

subsection \<open>The URL setters\<close>

datatype setter_error = NullPointerWrite | ReadPastEnd

definition store_write :: "(nat \<Rightarrow> char) \<Rightarrow> nat \<Rightarrow> char list \<Rightarrow> nat \<Rightarrow> char" where
  "store_write h a bs = (\<lambda>i. if a \<le> i \<and> i < a + length bs then bs ! (i - a) else h i)"

definition strlcpy_to ::
  "(nat \<Rightarrow> char) \<Rightarrow> nat option \<Rightarrow> char list \<Rightarrow> int \<Rightarrow> setter_error + (nat \<Rightarrow> char)" where
  \<comment> \<open>\<open>ink_strlcpy (dst, buf, siz)\<close> on the store; \<open>buf\<close> holds the bytes of the source\<close>
  "strlcpy_to h dst buf siz =
     (case c_str buf 0 of
        None \<Rightarrow> Inl ReadPastEnd
      | Some src \<Rightarrow>
          (case dst of
             None \<Rightarrow> if ink_strlcpy src siz = [] then Inr h else Inl NullPointerWrite
           | Some a \<Rightarrow> Inr (store_write h a (ink_strlcpy src siz))))"

definition memcpy_to ::
  "(nat \<Rightarrow> char) \<Rightarrow> nat option \<Rightarrow> char list \<Rightarrow> int \<Rightarrow> setter_error + (nat \<Rightarrow> char)" where
  "memcpy_to h dst buf n =
     (case c_memread buf 0 n of
        None \<Rightarrow> Inl ReadPastEnd
      | Some bs \<Rightarrow>
          (case dst of
             None \<Rightarrow> if bs = [] then Inr h else Inl NullPointerWrite
           | Some a \<Rightarrow> Inr (store_write h a bs)))"

definition set_client_req_url ::
  "LogAccess \<Rightarrow> char list option \<Rightarrow> int \<Rightarrow> setter_error + LogAccess" where
  "set_client_req_url ctx buf len =
     (case buf of
        None \<Rightarrow> Inr ctx
      | Some b \<Rightarrow>
          (let n = min len (m_client_req_url_len ctx)
           in case strlcpy_to (store ctx) (m_client_req_url_str ctx) b (n + 1) of
                Inl e \<Rightarrow> Inl e
              | Inr h \<Rightarrow> Inr (ctx\<lparr>m_client_req_url_len := n, store := h\<rparr>)))"

definition set_client_req_url_canon ::
  "LogAccess \<Rightarrow> char list option \<Rightarrow> int \<Rightarrow> setter_error + LogAccess" where
  "set_client_req_url_canon ctx buf len =
     (case buf of
        None \<Rightarrow> Inr ctx
      | Some b \<Rightarrow>
          (let n = min len (m_client_req_url_canon_len ctx)
           in case strlcpy_to (store ctx) (m_client_req_url_canon_str ctx) b (n + 1) of
                Inl e \<Rightarrow> Inl e
              | Inr h \<Rightarrow> Inr (ctx\<lparr>m_client_req_url_canon_len := n, store := h\<rparr>)))"

definition set_client_req_unmapped_url_canon ::
  "LogAccess \<Rightarrow> char list option \<Rightarrow> int \<Rightarrow> setter_error + LogAccess" where
  "set_client_req_unmapped_url_canon ctx buf len =
     (case buf of
        None \<Rightarrow> Inr ctx
      | Some b \<Rightarrow>
          if m_client_req_unmapped_url_canon_str ctx = None then Inr ctx
          else
            (let n = min len (m_client_req_unmapped_url_canon_len ctx)
             in case memcpy_to (store ctx) (m_client_req_unmapped_url_canon_str ctx) b n of
                  Inl e \<Rightarrow> Inl e
                | Inr h \<Rightarrow> Inr (ctx\<lparr>m_client_req_unmapped_url_canon_len := n, store := h\<rparr>)))"

definition set_client_req_unmapped_url_path ::
  "LogAccess \<Rightarrow> char list option \<Rightarrow> int \<Rightarrow> setter_error + LogAccess" where
  "set_client_req_unmapped_url_path ctx buf len =
     (case buf of
        None \<Rightarrow> Inr ctx
      | Some b \<Rightarrow>
          if m_client_req_unmapped_url_path_str ctx = None then Inr ctx
          else
            (let n = min len (m_client_req_unmapped_url_path_len ctx)
             in case strlcpy_to (store ctx) (m_client_req_unmapped_url_path_str ctx) b (n + 1) of
                  Inl e \<Rightarrow> Inl e
                | Inr h \<Rightarrow> Inr (ctx\<lparr>m_client_req_unmapped_url_path_len := n, store := h\<rparr>)))"

definition set_client_req_unmapped_url_host ::
  "LogAccess \<Rightarrow> char list option \<Rightarrow> int \<Rightarrow> setter_error + LogAccess" where
  "set_client_req_unmapped_url_host ctx buf len =
     (case buf of
        None \<Rightarrow> Inr ctx
      | Some b \<Rightarrow>
          if m_client_req_unmapped_url_host_str ctx = None then Inr ctx
          else
            (let n = min len (m_client_req_unmapped_url_host_len ctx)
             in case strlcpy_to (store ctx) (m_client_req_unmapped_url_host_str ctx) b (n + 1) of
                  Inl e \<Rightarrow> Inl e
                | Inr h \<Rightarrow> Inr (ctx\<lparr>m_client_req_unmapped_url_host_len := n, store := h\<rparr>)))"

section \<open>The claims in the spec's words\<close>

text \<open>
  The JSON escape of one byte as the spec words it (\<open>json_escape_claimed\<close>: only the
  control characters below 0x20 and the byte 0x7F take the long escape) and as the
  lookup table has it (\<open>json_escape_byte\<close>: every byte from 0x7F on takes it).
\<close>

definition hex2 :: "char \<Rightarrow> string" where
  "hex2 b = [''0123456789abcdef'' ! (of_char b div 16), ''0123456789abcdef'' ! (of_char b mod 16)]"

definition short_escape :: "char \<Rightarrow> char option" where
  "short_escape b =
     (if b = CHR 0x08 then Some CHR ''b''
      else if b = CHR 0x09 then Some CHR ''t''
      else if b = CHR 0x0A then Some CHR ''n''
      else if b = CHR 0x0C then Some CHR ''f''
      else if b = CHR 0x0D then Some CHR ''r''
      else if b = CHR 0x5C then Some CHR 0x5C
      else if b = CHR 0x22 then Some CHR 0x22
      else if b = CHR ''/'' then Some CHR ''/''
      else None)"

definition json_escape_claimed :: "char \<Rightarrow> string" where
  "json_escape_claimed b =
     (case short_escape b of
        Some e \<Rightarrow> [CHR 0x5C, e]
      | None \<Rightarrow>
          if (of_char b :: nat) < 32 \<or> b = CHR 0x7F then [CHR 0x5C, CHR ''u'', CHR ''0'', CHR ''0''] @ hex2 b
          else [b])"

definition json_escape_byte :: "char \<Rightarrow> string" where
  "json_escape_byte b =
     (case short_escape b of
        Some e \<Rightarrow> [CHR 0x5C, e]
      | None \<Rightarrow>
          if (of_char b :: nat) < 32 \<or> 127 \<le> (of_char b :: nat)
          then [CHR 0x5C, CHR ''u'', CHR ''0'', CHR ''0''] @ hex2 b
          else [b])"

definition json_escape_text :: "string \<Rightarrow> string" where
  "json_escape_text val = concat (map json_escape_byte val)"

text \<open>The fallback text of an alias decode, \<open><prefix>(<code>)\<close>.\<close>

definition alias_fallback :: "string \<Rightarrow> int \<Rightarrow> string" where
  "alias_fallback pre code = pre @ ''('' @ dec_int code @ '')''"

definition alias_decoders ::
  "((membuf \<Rightarrow> nat \<Rightarrow> int \<Rightarrow> LogFieldAliasMap \<Rightarrow> unmarshal_res option) \<times> string) list" where
  \<comment> \<open>the five wrappers with the prefix each configures\<close>
  "alias_decoders =
     [(unmarshal_hierarchy, ''INVALID_CODE''),
      (unmarshal_finish_status, ''UNKNOWN_FINISH_CODE''),
      (unmarshal_cache_code, ''ERROR_UNKNOWN''),
      (unmarshal_cache_hit_miss, ''HIT_MISS_UNKNOWN''),
      (unmarshal_cache_write_code, ''UNKNOWN_CACHE_WRITE_CODE'')]"

definition slice_input_len :: "LogEscapeType \<Rightarrow> string \<Rightarrow> int" where
  \<comment> \<open>the length that \<open>unmarshal_str\<close> hands to \<open>toStrOffset\<close>\<close>
  "slice_input_len esc val =
     (if esc = LOG_ESCAPE_JSON then int (length (json_escape_text val)) else int (length val))"

definition placeholders :: "string \<Rightarrow> string list" where
  \<comment> \<open>the field symbols that \<open>parse_format_string\<close> finds in a format string\<close>
  "placeholders format_str = snd (snd (parse_format_string format_str))"

definition example_context :: LogAccess where
  \<comment> \<open>a transaction with a PROXY-protocol authority TLV and no valid client request\<close>
  "example_context =
     \<lparr>m_http_sm = True, pp_authority = Some ''example.com'', m_client_request = None,
      store = (\<lambda>a. NUL),
      m_client_req_url_str = None, m_client_req_url_len = 0,
      m_client_req_url_canon_str = None, m_client_req_url_canon_len = 0,
      m_client_req_unmapped_url_canon_str = None, m_client_req_unmapped_url_canon_len = 0,
      m_client_req_unmapped_url_path_str = None, m_client_req_unmapped_url_path_len = 0,
      m_client_req_unmapped_url_host_str = None, m_client_req_unmapped_url_host_len = 0\<rparr>"

abbreviation one_byte_short :: "(int \<Rightarrow> unmarshal_res option) \<Rightarrow> int \<Rightarrow> unmarshal_res \<Rightarrow> bool" where
  "one_byte_short D len r \<equiv>
     (D len = Some r \<and> 1 \<le> ret r \<longrightarrow>
        (\<exists>r'. D (ret r - 1) = Some r' \<and> ret r' = - 1
              \<and> int (length (written r')) \<le> ret r - 1))"

abbreviation within_capacity :: "(int \<Rightarrow> unmarshal_res option) \<Rightarrow> int \<Rightarrow> unmarshal_res \<Rightarrow> bool" where
  "within_capacity D len r \<equiv>
     (D len = Some r \<and> 0 \<le> len \<longrightarrow> int (length (written r)) \<le> len)"

section \<open>Properties\<close>

subsection \<open>Auxiliary facts\<close>

lemma c_str_SomeD:
  assumes "c_str mem p = Some val"
  shows "\<exists>rest. drop p mem = val @ NUL # rest" and "NUL \<notin> set val"
proof -
  from assms have nul: "NUL \<in> set (drop p mem)"
    and val: "val = takeWhile (\<lambda>c. c \<noteq> NUL) (drop p mem)"
    by (auto simp: c_str_def split: if_splits)
  from nul have "dropWhile (\<lambda>c. c \<noteq> NUL) (drop p mem) \<noteq> []" by simp
  moreover have "hd (dropWhile (\<lambda>c. c \<noteq> NUL) (drop p mem)) = NUL"
    using nul hd_dropWhile[of "\<lambda>c. c \<noteq> NUL" "drop p mem"] by auto
  ultimately obtain rest where "dropWhile (\<lambda>c. c \<noteq> NUL) (drop p mem) = NUL # rest"
    by (cases "dropWhile (\<lambda>c. c \<noteq> NUL) (drop p mem)") auto
  then have "drop p mem = val @ NUL # rest"
    using takeWhile_dropWhile_id[of "\<lambda>c. c \<noteq> NUL" "drop p mem"] val by simp
  then show "\<exists>rest. drop p mem = val @ NUL # rest" by blast
  show "NUL \<notin> set val" using val by (auto dest: set_takeWhileD)
qed

lemma drop_eq_length: "drop p mem = xs \<Longrightarrow> xs \<noteq> [] \<Longrightarrow> p + length xs = length mem"
  by (metis add.commute drop_eq_Nil le_add_diff_inverse2 length_drop linorder_not_le nat_less_le)

lemma wrap64_range: "- (2 ^ 63) \<le> wrap64 x \<and> wrap64 x < 2 ^ 63"
  unfolding wrap64_def
  using pos_mod_bound[of "2 ^ 64" "x + 2 ^ 63"] pos_mod_sign[of "2 ^ 64" "x + 2 ^ 63"]
  by simp

lemma dec_nat_length: "n < 10 ^ k \<Longrightarrow> 0 < k \<Longrightarrow> length (dec_nat n) \<le> k"
proof (induction k arbitrary: n)
  case 0 then show ?case by simp
next
  case (Suc k)
  show ?case
  proof (cases "n < 10")
    case True then show ?thesis by (subst dec_nat.simps) simp
  next
    case False
    then have k: "0 < k" using Suc.prems by (cases k) auto
    have "n div 10 < 10 ^ k" using Suc.prems by (simp add: less_mult_imp_div_less mult.commute)
    from Suc.IH[OF this k] False show ?thesis by (subst dec_nat.simps) simp
  qed
qed

lemma dec_nat_nonempty: "dec_nat n \<noteq> []"
  by (subst dec_nat.simps) simp

lemma dec_int_length: "- (2 ^ 63) \<le> v \<Longrightarrow> v < 2 ^ 63 \<Longrightarrow> length (dec_int v) \<le> 20"
proof -
  assume a: "- (2 ^ 63) \<le> v" "v < 2 ^ 63"
  have "nat \<bar>v\<bar> < 10 ^ 19" using a by simp
  from dec_nat_length[OF this] have "length (dec_nat (nat \<bar>v\<bar>)) \<le> 19" by simp
  then show ?thesis by (auto simp: dec_int_def abs_if split: if_splits)
qed

lemma fold_fun_upd:
  "fold (\<lambda>i t. t(i := v)) xs t n = (if n \<in> set xs then v else t n)"
  by (induction xs arbitrary: t) auto

lemma fold_fun_upd_upt:
  "fold (\<lambda>i t. t(i := v)) [a..<b] t n = (if a \<le> n \<and> n < b then v else t n)"
  by (simp only: fold_fun_upd set_upt atLeastLessThan_iff)

lemma LUT_table_eq:
  "LUT_table n =
     (if n = 8 then CHR ''b'' else if n = 9 then CHR ''t'' else if n = 10 then CHR ''n''
      else if n = 12 then CHR ''f'' else if n = 13 then CHR ''r'' else if n = 92 then CHR 0x5C
      else if n = 34 then CHR 0x22 else if n = 47 then CHR ''/''
      else if n < 32 \<or> (127 \<le> n \<and> n < 256) then LONG_ESCAPE else NO_ESCAPE)"
  unfolding LUT_table_def Let_def fold_fun_upd_upt by simp

lemma of_char_is:
  "(of_char b :: nat) = 8 \<longleftrightarrow> b = CHR 0x08"
  "(of_char b :: nat) = 9 \<longleftrightarrow> b = CHR 0x09"
  "(of_char b :: nat) = 10 \<longleftrightarrow> b = CHR 0x0A"
  "(of_char b :: nat) = 12 \<longleftrightarrow> b = CHR 0x0C"
  "(of_char b :: nat) = 13 \<longleftrightarrow> b = CHR 0x0D"
  "(of_char b :: nat) = 92 \<longleftrightarrow> b = CHR 0x5C"
  "(of_char b :: nat) = 34 \<longleftrightarrow> b = CHR 0x22"
  "(of_char b :: nat) = 47 \<longleftrightarrow> b = CHR ''/''"
  using of_char_eq_iff[of b "CHR 0x08", where ?'a = nat]
        of_char_eq_iff[of b "CHR 0x09", where ?'a = nat]
        of_char_eq_iff[of b "CHR 0x0A", where ?'a = nat]
        of_char_eq_iff[of b "CHR 0x0C", where ?'a = nat]
        of_char_eq_iff[of b "CHR 0x0D", where ?'a = nat]
        of_char_eq_iff[of b "CHR 0x5C", where ?'a = nat]
        of_char_eq_iff[of b "CHR 0x22", where ?'a = nat]
        of_char_eq_iff[of b "CHR ''/''", where ?'a = nat]
  by simp_all

lemma EscLookup_result_eq:
  "EscLookup_result b =
     (case short_escape b of
        Some e \<Rightarrow> e
      | None \<Rightarrow> if (of_char b :: nat) < 32 \<or> 127 \<le> (of_char b :: nat) then LONG_ESCAPE
                else NO_ESCAPE)"
  unfolding EscLookup_result_def LUT_table_eq short_escape_def
  by (simp add: of_char_is)

lemma nibble_hex_all: "\<forall>n \<in> set [0..<16]. nibble (int n) = ''0123456789abcdef'' ! n"
  by code_simp

lemma nibble_hex: "n < 16 \<Longrightarrow> nibble (int n) = ''0123456789abcdef'' ! n"
  using nibble_hex_all by simp

lemma nibble_of_char:
  "nibble (of_char c div 16) = ''0123456789abcdef'' ! (of_char c div 16)"
  "nibble (of_char c mod 16) = ''0123456789abcdef'' ! (of_char c mod 16)"
proof -
  have c: "(of_char c :: int) = int (of_char c)" by (simp add: of_nat_of_char)
  have "(of_char c :: nat) div 16 < 16" using nat_of_char_less_256[of c] by (simp add: div_less_iff_less_mult)
  from nibble_hex[OF this] show "nibble (of_char c div 16) = ''0123456789abcdef'' ! (of_char c div 16)"
    by (simp add: c zdiv_int)
  have "(of_char c :: nat) mod 16 < 16" by simp
  from nibble_hex[OF this] show "nibble (of_char c mod 16) = ''0123456789abcdef'' ! (of_char c mod 16)"
    by (simp add: c zmod_int)
qed

lemma escape_json_loop_step:
  "escape_json_loop dest len (c # buf) (Suc k) el out =
     (if dest \<and> el + int (length (json_escape_byte c)) > len then Some (el, out)
      else escape_json_loop dest len buf k (el + int (length (json_escape_byte c)))
             (if dest then out @ json_escape_byte c else out))"
proof -
  have ne: "e \<noteq> NO_ESCAPE \<and> e \<noteq> LONG_ESCAPE" if "short_escape c = Some e" for e
    using that by (auto simp: short_escape_def NO_ESCAPE_def LONG_ESCAPE_def split: if_splits)
  show ?thesis
    by (cases "short_escape c")
       (auto simp: EscLookup_result_eq json_escape_byte_def hex2_def nibble_of_char
          NO_ESCAPE_def LONG_ESCAPE_def dest: ne)
qed

declare escape_json_loop.simps(3) [simp del]

lemma escape_json_query:
  "escape_json_loop False len (val @ rest) (length val) el out
     = Some (el + int (length (json_escape_text val)), out)"
  by (induction val arbitrary: el)
     (simp_all add: escape_json_loop_step json_escape_text_def add.assoc)

lemma json_escape_byte_pos: "0 < length (json_escape_byte c)"
  by (simp add: json_escape_byte_def hex2_def split: option.splits)

lemma escape_json_fill_exact:
  "el + int (length (json_escape_text val)) = len \<Longrightarrow> length val \<le> k \<Longrightarrow>
   escape_json_loop True len (val @ c # rest) k el out = Some (len, out @ json_escape_text val)"
proof (induction val arbitrary: k el out)
  case Nil
  then show ?case
    using json_escape_byte_pos[of c]
    by (cases k) (simp_all add: json_escape_text_def escape_json_loop_step)
next
  case (Cons a val)
  then obtain k' where k: "k = Suc k'" "length val \<le> k'" by (cases k) auto
  have "el + int (length (json_escape_byte a)) + int (length (json_escape_text val)) = len"
    using Cons.prems(1) by (simp add: json_escape_text_def)
  from Cons.IH[OF this k(2)] Cons.prems(1) show ?case
    by (simp add: k escape_json_loop_step json_escape_text_def)
qed

lemma escape_json_fill_bound:
  "escape_json_loop True len buf k el out = Some (r, out') \<Longrightarrow> el \<le> len \<Longrightarrow>
   r \<le> len \<and> el \<le> r \<and> int (length out') = int (length out) + (r - el)"
proof (induction buf arbitrary: k el out)
  case Nil
  then show ?case by (cases k) auto
next
  case (Cons a buf)
  show ?case
  proof (cases k)
    case 0
    then show ?thesis using Cons.prems by simp
  next
    case (Suc k')
    show ?thesis
    proof (cases "el + int (length (json_escape_byte a)) > len")
      case True
      then show ?thesis using Cons.prems by (simp add: Suc escape_json_loop_step)
    next
      case False
      then have "escape_json_loop True len buf k' (el + int (length (json_escape_byte a)))
                   (out @ json_escape_byte a) = Some (r, out')"
        using Cons.prems by (simp add: Suc escape_json_loop_step)
      from Cons.IH[OF this] False show ?thesis by simp
    qed
  qed
qed

subsection \<open>C7: the HTTP status decoder pads to three digits\<close>

lemma itoa_42: "unmarshal_itoa 42 3 CHR ''0'' = ''042''"
  by code_simp

text \<open>
  Claim C7. A status field whose encoded integer is 42, decoded by
  \<open>unmarshal_http_status\<close> into a destination of capacity greater than 3, gives exactly
  the three characters \<open>042\<close>, the result 3, and the cursor after the integer.
\<close>

theorem http_status_42:
  assumes "unmarshal_int mem p = Some (42, p')" and "3 < len"
  shows "unmarshal_http_status mem p len = Some \<lparr>ret = 3, written = ''042'', cur = p'\<rparr>"
  using assms by (simp add: unmarshal_http_status_def itoa_42)

theorem http_status_42_witness:
  "unmarshal_http_status [CHR 0x2A, NUL, NUL, NUL, NUL, NUL, NUL, NUL] 0 4
     = Some \<lparr>ret = 3, written = ''042'', cur = 8\<rparr>"
proof -
  have "unmarshal_int [CHR 0x2A, NUL, NUL, NUL, NUL, NUL, NUL, NUL] 0 = Some (42, 8)"
    by code_simp
  from http_status_42[OF this, of 4] show ?thesis by simp
qed

subsection \<open>C8: the HTTP version decoder\<close>

text \<open>
  Claim C8 says that \<open>unmarshal_http_version\<close> gives \<open>HTTP/\<close>, the major number, a dot
  and the minor number. On the field that \<open>marshal_client_req_http_version\<close> writes
  for HTTP/1.1 (the integers 1 and 1) the source returns 7 and stores \<open>HTTP/1.\<close>: the
  minor number is converted into the local buffer but left out of the length.
\<close>

theorem http_version_drops_minor:
  "unmarshal_http_version (marshal_int 1 @ marshal_int 1) 0 64
     = Some \<lparr>ret = 7, written = ''HTTP/1.'', cur = 16\<rparr>"
  by code_simp

subsection \<open>C5: the JSON escape of a byte\<close>

lemma json_escape_text_length: "length val \<le> length (json_escape_text val)"
proof (induction val)
  case Nil show ?case by (simp add: json_escape_text_def)
next
  case (Cons a val)
  then show ?case
    using json_escape_byte_pos[of a]
    by (simp add: json_escape_text_def del: length_greater_0_conv)
qed

lemma unmarshal_str_json_plain:
  assumes "c_str mem p = Some val"
  shows "unmarshal_str mem p len None LOG_ESCAPE_JSON =
           Some (if int (length (json_escape_text val)) < len
                 then \<lparr>ret = int (length (json_escape_text val)), written = json_escape_text val,
                        cur = p + nat (LogAccess_strlen (Some val))\<rparr>
                 else \<lparr>ret = - 1, written = [], cur = p + nat (LogAccess_strlen (Some val))\<rparr>)"
proof -
  from c_str_SomeD(1)[OF assms] obtain rest where d: "drop p mem = val @ NUL # rest" by blast
  have q: "escape_json False (drop p mem) (int (length val))
             = Some (int (length (json_escape_text val)), [])"
    by (simp add: escape_json_def d escape_json_query)
  have f: "escape_json True (drop p mem) (int (length (json_escape_text val)))
             = Some (int (length (json_escape_text val)), json_escape_text val)"
    unfolding escape_json_def d
    using escape_json_fill_exact[of 0 val "int (length (json_escape_text val))"
            "length (json_escape_text val)" NUL rest "[]"] json_escape_text_length[of val]
    by simp
  show ?thesis
    by (simp add: unmarshal_str_def unmarshal_str_json_def assms q f slice_of_def)
qed

text \<open>
  Claim C5, amended. For every byte \<open>b\<close>, \<open>escape_json\<close> produces
  \<open>json_escape_byte b\<close>: the two-character short escape for backspace, tab, newline,
  formfeed, carriage return, backslash, double quote and forward slash; the
  six-character escape \<open>\u00XX\<close> with lowercase hex digits for every other byte below
  0x20 and for every byte from 0x7F to 0xFF; the byte itself otherwise. The query
  mode returns the same length, and a string decoded with JSON escaping into a large
  enough destination is the concatenation of the escapes of its bytes.
\<close>

theorem json_escape_amended:
  "escape_json True (b # c # rest) (int (length (json_escape_byte b)))
     = Some (int (length (json_escape_byte b)), json_escape_byte b)
   \<and> escape_json False (b # rest) 1 = Some (int (length (json_escape_byte b)), [])
   \<and> (c_str mem p = Some val \<and> int (length (json_escape_text val)) < len \<longrightarrow>
        unmarshal_str mem p len None LOG_ESCAPE_JSON
          = Some \<lparr>ret = int (length (json_escape_text val)), written = json_escape_text val,
                  cur = p + nat (LogAccess_strlen (Some val))\<rparr>)"
proof (intro conjI impI)
  show "escape_json True (b # c # rest) (int (length (json_escape_byte b)))
          = Some (int (length (json_escape_byte b)), json_escape_byte b)"
    unfolding escape_json_def
    using escape_json_fill_exact[of 0 "[b]" "int (length (json_escape_byte b))"
            "length (json_escape_byte b)" c rest "[]"] json_escape_byte_pos[of b]
    by (simp add: json_escape_text_def Suc_le_eq)
  show "escape_json False (b # rest) 1 = Some (int (length (json_escape_byte b)), [])"
    unfolding escape_json_def
    using escape_json_query[of 1 "[b]" rest 0 "[]"] by (simp add: json_escape_text_def)
  show "unmarshal_str mem p len None LOG_ESCAPE_JSON
          = Some \<lparr>ret = int (length (json_escape_text val)), written = json_escape_text val,
                  cur = p + nat (LogAccess_strlen (Some val))\<rparr>"
    if "c_str mem p = Some val \<and> int (length (json_escape_text val)) < len"
    using that unmarshal_str_json_plain[of mem p val len] by simp
qed

lemma json_text_example:
  "json_escape_text [CHR ''A'', CHR 0x09, CHR ''B'', CHR 0x22, CHR ''C'', CHR 0x80]
     = [CHR ''A'', CHR 0x5C, CHR ''t'', CHR ''B'', CHR 0x5C, CHR 0x22, CHR ''C'',
        CHR 0x5C, CHR ''u'', CHR ''0'', CHR ''0'', CHR ''8'', CHR ''0'']"
  by code_simp

theorem json_escape_amended_witness:
  "escape_json True [CHR 0x1F, NUL] 6
     = Some (6, [CHR 0x5C, CHR ''u'', CHR ''0'', CHR ''0'', CHR ''1'', CHR ''f''])
   \<and> escape_json False [CHR 0x1F] 1 = Some (6, [])
   \<and> unmarshal_str [CHR ''A'', CHR 0x09, CHR ''B'', CHR 0x22, CHR ''C'', CHR 0x80, NUL] 0 64
        None LOG_ESCAPE_JSON
       = Some \<lparr>ret = 13,
                written = [CHR ''A'', CHR 0x5C, CHR ''t'', CHR ''B'', CHR 0x5C, CHR 0x22, CHR ''C'',
                           CHR 0x5C, CHR ''u'', CHR ''0'', CHR ''0'', CHR ''8'', CHR ''0''],
                cur = 8\<rparr>"
proof -
  have b: "json_escape_byte (CHR 0x1F) = [CHR 0x5C, CHR ''u'', CHR ''0'', CHR ''0'', CHR ''1'', CHR ''f'']"
    by code_simp
  have c: "c_str [CHR ''A'', CHR 0x09, CHR ''B'', CHR 0x22, CHR ''C'', CHR 0x80, NUL] 0
             = Some [CHR ''A'', CHR 0x09, CHR ''B'', CHR 0x22, CHR ''C'', CHR 0x80]"
    by code_simp
  have w: "LogAccess_strlen (Some [CHR ''A'', CHR 0x09, CHR ''B'', CHR 0x22, CHR ''C'', CHR 0x80]) = 8"
    by code_simp
  show ?thesis
    using json_escape_amended[of "CHR 0x1F" NUL "[]"
            "[CHR ''A'', CHR 0x09, CHR ''B'', CHR 0x22, CHR ''C'', CHR 0x80, NUL]" 0
            "[CHR ''A'', CHR 0x09, CHR ''B'', CHR 0x22, CHR ''C'', CHR 0x80]" 64]
    by (simp add: b c w json_text_example)
qed

text \<open>
  The claim as stated lets every byte other than the short escapes, the control
  characters below 0x20 and 0x7F pass through unchanged. The byte 0x80 does not: the
  lookup table marks every index from 0x7F to 0xFF for the long escape.
\<close>

theorem json_escape_high_byte_counterexample:
  "escape_json True [CHR 0x80, NUL] 6
     = Some (6, [CHR 0x5C, CHR ''u'', CHR ''0'', CHR ''0'', CHR ''8'', CHR ''0''])
   \<and> json_escape_claimed (CHR 0x80) = [CHR 0x80]
   \<and> unmarshal_str [CHR 0x80, NUL] 0 64 None LOG_ESCAPE_JSON
       = Some \<lparr>ret = 6,
                written = [CHR 0x5C, CHR ''u'', CHR ''0'', CHR ''0'', CHR ''8'', CHR ''0''],
                cur = 8\<rparr>"
  by code_simp

subsection \<open>C6: slices\<close>

lemma c_str_query:
  assumes "c_str mem p = Some val"
  shows "escape_json False (drop p mem) (int (length val))
           = Some (int (length (json_escape_text val)), [])"
proof -
  from c_str_SomeD(1)[OF assms] obtain rest where d: "drop p mem = val @ NUL # rest" by blast
  show ?thesis by (simp add: escape_json_def d escape_json_query)
qed

lemma unmarshal_str_empty_slice:
  assumes "c_str mem p = Some val" and "m_enable s"
    and "fst (toStrOffset s (slice_input_len esc val)) \<le> 0"
  shows "unmarshal_str mem p len (Some s) esc
           = Some \<lparr>ret = 0, written = [], cur = p + nat (LogAccess_strlen (Some val))\<rparr>"
  using assms
  by (cases esc)
     (auto simp: unmarshal_str_def unmarshal_str_json_def slice_of_def slice_input_len_def
        c_str_query Let_def split: prod.splits)

lemma drop_add_eq: "drop p mem = xs @ ys \<Longrightarrow> drop (p + length xs) mem = ys"
  by (metis add.commute append_eq_conv_conj drop_drop)

lemma unmarshal_str_cde:
  assumes c: "c_str mem p = Some ''abcdefgh''" and en: "m_enable s"
    and sl: "toStrOffset s 8 = (3, 2)" and len: "3 < len"
  shows "unmarshal_str mem p len (Some s) esc
           = Some \<lparr>ret = 3, written = ''cde'', cur = p + 16\<rparr>"
proof -
  from c_str_SomeD(1)[OF c] obtain rest where d: "drop p mem = ''abcdefgh'' @ NUL # rest" by blast
  have d2: "drop (p + 2) mem = ''cdefgh'' @ NUL # rest"
    using drop_add_eq[of p mem "''ab''" "''cdefgh'' @ NUL # rest"] d by simp
  have d2': "drop (Suc (Suc p)) mem = ''cdefgh'' @ NUL # rest"
    using d2 by simp
  have lm: "p + 9 \<le> length mem"
    using drop_eq_length[OF d] by simp
  have w: "nat (LogAccess_strlen (Some ''abcdefgh'')) = 16" by code_simp
  have jt: "json_escape_text ''abcdefgh'' = ''abcdefgh''" by code_simp
  have jb: "json_escape_byte CHR ''c'' = ''c''" "json_escape_byte CHR ''d'' = ''d''"
    "json_escape_byte CHR ''e'' = ''e''" by code_simp+
  have pa: "ptr_add p 2 = Some (Suc (Suc p))" by (simp add: ptr_add_def nat_add_distrib)
  have mr: "c_memread mem (Suc (Suc p)) 3 = Some ''cde''"
    using lm by (simp add: c_memread_def d2')
  have ej: "escape_json True (drop (Suc (Suc p)) mem) 3 = Some (3, ''cde'')"
    by (simp add: escape_json_def d2' eval_nat_numeral escape_json_loop_step jb)
  have q: "escape_json False (drop p mem) 8 = Some (8, [])"
    using c_str_query[OF c] by (simp add: jt)
  show ?thesis
    using en sl len
    by (cases esc)
       (simp_all add: unmarshal_str_def unmarshal_str_json_def slice_of_def c q w pa mr ej)
qed

text \<open>
  Claim C6. The encoded string \<open>abcdefgh\<close>, decoded under an enabled slice that
  resolves to length 3 at offset 2 into a destination of capacity greater than 3,
  gives exactly \<open>cde\<close> and the result 3, with or without JSON escaping. Under any
  enabled slice whose resolved length is not positive the decode returns 0, stores
  nothing and is not a failure, whatever the capacity.
\<close>

theorem slice_extraction:
  "(c_str mem p = Some ''abcdefgh'' \<and> m_enable s \<and> toStrOffset s 8 = (3, 2) \<and> 3 < len \<longrightarrow>
      unmarshal_str mem p len (Some s) esc = Some \<lparr>ret = 3, written = ''cde'', cur = p + 16\<rparr>)
   \<and> (c_str mem' p' = Some val \<and> m_enable s' \<and>
        fst (toStrOffset s' (slice_input_len esc' val)) \<le> 0 \<longrightarrow>
      unmarshal_str mem' p' len' (Some s') esc'
        = Some \<lparr>ret = 0, written = [], cur = p' + nat (LogAccess_strlen (Some val))\<rparr>)"
  using unmarshal_str_cde[of mem p s len esc] unmarshal_str_empty_slice[of mem' p' val s' esc' len']
  by blast

theorem slice_extraction_witness:
  "unmarshal_str [CHR ''a'', CHR ''b'', CHR ''c'', CHR ''d'', CHR ''e'', CHR ''f'', CHR ''g'', CHR ''h'', NUL] 0 4
     (Some \<lparr>m_enable = True, toStrOffset = (\<lambda>n. (3, 2))\<rparr>) LOG_ESCAPE_NONE
     = Some \<lparr>ret = 3, written = ''cde'', cur = 16\<rparr>
   \<and> unmarshal_str [CHR ''a'', CHR ''b'', CHR ''c'', CHR ''d'', CHR ''e'', CHR ''f'', CHR ''g'', CHR ''h'', NUL] 0 0
       (Some \<lparr>m_enable = True, toStrOffset = (\<lambda>n. (n - 20, 20))\<rparr>) LOG_ESCAPE_JSON
       = Some \<lparr>ret = 0, written = [], cur = 16\<rparr>"
proof -
  have c: "c_str [CHR ''a'', CHR ''b'', CHR ''c'', CHR ''d'', CHR ''e'', CHR ''f'', CHR ''g'', CHR ''h'', NUL] 0 = Some ''abcdefgh''" by code_simp
  have w: "nat (LogAccess_strlen (Some ''abcdefgh'')) = 16" by code_simp
  have l: "slice_input_len LOG_ESCAPE_JSON ''abcdefgh'' = 8" by code_simp
  show ?thesis
    using slice_extraction[of "[CHR ''a'', CHR ''b'', CHR ''c'', CHR ''d'', CHR ''e'', CHR ''f'', CHR ''g'', CHR ''h'', NUL]" 0
            "\<lparr>m_enable = True, toStrOffset = (\<lambda>n. (3, 2))\<rparr>" 4 LOG_ESCAPE_NONE
            "[CHR ''a'', CHR ''b'', CHR ''c'', CHR ''d'', CHR ''e'', CHR ''f'', CHR ''g'', CHR ''h'', NUL]" 0 "''abcdefgh''"
            "\<lparr>m_enable = True, toStrOffset = (\<lambda>n. (n - 20, 20))\<rparr>" LOG_ESCAPE_JSON 0]
    by (simp add: c w l)
qed

subsection \<open>C9: the cursor advance\<close>

lemma unmarshal_str_plain:
  assumes "c_str mem p = Some val" and "slice_of slice = None"
  shows "unmarshal_str mem p len slice LOG_ESCAPE_NONE =
           Some (if int (length val) < len
                 then \<lparr>ret = int (length val), written = val,
                        cur = p + nat (LogAccess_strlen (Some val))\<rparr>
                 else \<lparr>ret = - 1, written = [], cur = p + nat (LogAccess_strlen (Some val))\<rparr>)"
  using assms by (simp add: unmarshal_str_def)

lemma unmarshal_str_no_slice:
  "slice_of slice = None \<Longrightarrow>
   unmarshal_str mem p len slice esc = unmarshal_str mem p len None esc"
proof -
  assume ns: "slice_of slice = None"
  have n0: "slice_of None = None" by (simp add: slice_of_def)
  show ?thesis
    by (simp add: unmarshal_str_def unmarshal_str_json_def ns n0 Let_def
          cong: option.case_cong prod.case_cong)
qed





subsection \<open>C4: alias decodes\<close>

lemma unmarshal_int_range:
  "unmarshal_int mem p = Some (code, p') \<Longrightarrow> - (2 ^ 63) \<le> code \<and> code < 2 ^ 63"
  using wrap64_range by (auto simp: unmarshal_int_def split: if_splits)

lemma ink_strlcpy_fits: "int (length s) < siz \<Longrightarrow> ink_strlcpy s siz = s @ [NUL]"
  by (auto simp: ink_strlcpy_def)

lemma ink_strlcpy_length: "0 \<le> siz \<Longrightarrow> int (length (ink_strlcpy s siz)) \<le> siz"
  by (auto simp: ink_strlcpy_def)

lemma unmarshal_with_map_miss:
  assumes "m code = None" and "int (length (alias_fallback pre code)) < 64"
  shows "unmarshal_with_map code len m (Some pre) =
           (if int (length (alias_fallback pre code)) < len
            then (int (length (alias_fallback pre code)), alias_fallback pre code @ [NUL])
            else (- 1, []))"
proof -
  have t: "take 63 (alias_fallback pre code) = alias_fallback pre code"
    using assms(2) by simp
  show ?thesis
    using assms t
    by (simp add: unmarshal_with_map_def asString_def Let_def ink_strlcpy_fits
          alias_fallback_def)
qed

lemma unmarshal_with_map_hit:
  assumes "m code = Some label"
  shows "unmarshal_with_map code len m msg =
           (if int (length label) < len then (int (length label), label @ [NUL]) else (- 1, []))"
  using assms by (simp add: unmarshal_with_map_def asString_def ink_strlcpy_fits)

lemma alias_decoders_prefix:
  "(W, pre) \<in> set alias_decoders \<Longrightarrow> W = unmarshal_alias pre \<and> length pre \<le> 24"
  by (auto simp: alias_decoders_def unmarshal_hierarchy_def unmarshal_finish_status_def
        unmarshal_cache_code_def unmarshal_cache_hit_miss_def unmarshal_cache_write_code_def)

lemma alias_fallback_short:
  assumes "length pre \<le> 24" and "- (2 ^ 63) \<le> code" and "code < 2 ^ 63"
  shows "int (length (alias_fallback pre code)) < 64"
  using dec_int_length[OF assms(2,3)] assms(1) by (simp add: alias_fallback_def)

text \<open>
  Claim C4, amended. For each of the five alias decoders and the prefix it configures,
  and through them for \<open>unmarshal_with_map\<close>: a code with no entry in the map gives
  exactly \<open><prefix>(<code>)\<close> (stored with its terminator) when that text is shorter
  than the capacity, and -1 otherwise; a code with an entry gives its label when the
  label is shorter than the capacity, and -1 otherwise.
\<close>

theorem alias_decode_amended:
  assumes "(W, pre) \<in> set alias_decoders" and "unmarshal_int mem p = Some (code, p')"
  shows "(m code = None \<longrightarrow>
            unmarshal_with_map code len m (Some pre) =
              (if int (length (alias_fallback pre code)) < len
               then (int (length (alias_fallback pre code)), alias_fallback pre code @ [NUL])
               else (- 1, []))
          \<and> W mem p len m =
              Some (if int (length (alias_fallback pre code)) < len
                    then \<lparr>ret = int (length (alias_fallback pre code)),
                           written = alias_fallback pre code @ [NUL], cur = p'\<rparr>
                    else \<lparr>ret = - 1, written = [], cur = p'\<rparr>))
       \<and> (\<forall>label. m code = Some label \<longrightarrow>
            W mem p len m =
              Some (if int (length label) < len
                    then \<lparr>ret = int (length label), written = label @ [NUL], cur = p'\<rparr>
                    else \<lparr>ret = - 1, written = [], cur = p'\<rparr>))"
proof -
  from alias_decoders_prefix[OF assms(1)]
  have W: "W = unmarshal_alias pre" and pre: "length pre \<le> 24" by simp_all
  from unmarshal_int_range[OF assms(2)]
  have short: "int (length (alias_fallback pre code)) < 64"
    using alias_fallback_short[OF pre] by simp
  show ?thesis
    by (auto simp: W unmarshal_alias_def assms(2) unmarshal_with_map_miss[OF _ short]
          unmarshal_with_map_hit)
qed

theorem alias_decode_amended_witness:
  "unmarshal_cache_code [CHR 0x2A, NUL, NUL, NUL, NUL, NUL, NUL, NUL] 0 64 (Map.empty(1 \<mapsto> ''TCP_HIT''))
     = Some \<lparr>ret = 17, written = ''ERROR_UNKNOWN(42)'' @ [NUL], cur = 8\<rparr>
   \<and> unmarshal_cache_code [CHR 0x01, NUL, NUL, NUL, NUL, NUL, NUL, NUL] 0 64 (Map.empty(1 \<mapsto> ''TCP_HIT''))
     = Some \<lparr>ret = 7, written = ''TCP_HIT'' @ [NUL], cur = 8\<rparr>"
proof -
  have d: "(unmarshal_cache_code, ''ERROR_UNKNOWN'') \<in> set alias_decoders"
    by (simp add: alias_decoders_def)
  have i1: "unmarshal_int [CHR 0x2A, NUL, NUL, NUL, NUL, NUL, NUL, NUL] 0 = Some (42, 8)"
    by code_simp
  have i2: "unmarshal_int [CHR 0x01, NUL, NUL, NUL, NUL, NUL, NUL, NUL] 0 = Some (1, 8)"
    by code_simp
  have f: "alias_fallback ''ERROR_UNKNOWN'' 42 = ''ERROR_UNKNOWN(42)''" by code_simp
  show ?thesis
    using alias_decode_amended[OF d i1, of "Map.empty(1 \<mapsto> ''TCP_HIT'')" 64]
          alias_decode_amended[OF d i2, of "Map.empty(1 \<mapsto> ''TCP_HIT'')" 64]
    by (simp add: f)
qed

text \<open>
  The claim as stated gives the label for every code that has an entry. With the
  entry \<open>1 \<mapsto> TCP_HIT\<close> and a destination of capacity 3 the decode returns -1 and
  stores nothing: the map reports a too small buffer.
\<close>

theorem alias_hit_small_buffer_counterexample:
  "unmarshal_cache_code [CHR 0x01, NUL, NUL, NUL, NUL, NUL, NUL, NUL] 0 3 (Map.empty(1 \<mapsto> ''TCP_HIT''))
     = Some \<lparr>ret = - 1, written = [], cur = 8\<rparr>"
  by code_simp

subsection \<open>C3: unknown field symbols\<close>

lemma parse_format_string_count:
  "fst (parse_format_string fmt) = int (length (placeholders fmt))"
  by (simp add: parse_format_string_def placeholders_def split: prod.splits)

lemma resolve_unknown_symbol:
  assumes "f \<in> set (placeholders fmt)" and "f \<notin> set registry"
  shows "resolve_logfield_string registry resolve_entry context (Some fmt) = None"
proof -
  obtain n t fs where pf: "parse_format_string fmt = (n, t, fs)"
    by (cases "parse_format_string fmt") auto
  then have fs: "fs = placeholders fmt" and n: "n = int (length fs)"
    using parse_format_string_count[of fmt] by (simp_all add: placeholders_def)
  have "length (filter (\<lambda>f. f \<in> set registry) fs) < length fs"
    using assms fs by (auto intro: length_filter_less)
  then have "fst (parse_symbol_string registry fs) \<noteq> n"
    by (simp add: parse_symbol_string_def n Let_def)
  moreover have "n \<noteq> 0" using assms(1) fs n by auto
  ultimately show ?thesis
    by (cases "context") (auto simp: resolve_logfield_string_def pf split: prod.splits)
qed

lemma resolve_no_placeholder:
  assumes "placeholders fmt = []"
  shows "resolve_logfield_string registry resolve_entry (Some ctx) (Some fmt) = Some fmt"
proof -
  have "fst (parse_format_string fmt) = 0"
    using parse_format_string_count[of fmt] assms by simp
  then show ?thesis
    by (auto simp: resolve_logfield_string_def split: prod.splits)
qed

text \<open>
  Claim C3. A format string with at least one placeholder whose name is not a
  registered field symbol makes the count of parsed symbols differ from the count of
  requested fields: \<open>resolve_logfield_string\<close> returns null and never reaches the
  marshalling and resolving of the record. A format string without a placeholder is
  returned as a copy of itself.
\<close>

theorem unknown_field_rejected:
  "(f \<in> set (placeholders fmt) \<and> f \<notin> set registry \<longrightarrow>
      resolve_logfield_string registry resolve_entry copt (Some fmt) = None)
   \<and> (placeholders fmt' = [] \<longrightarrow>
      resolve_logfield_string registry resolve_entry (Some ctx) (Some fmt') = Some fmt')"
  using resolve_unknown_symbol[of f fmt registry resolve_entry copt]
        resolve_no_placeholder[of fmt' registry resolve_entry ctx]
  by blast

theorem unknown_field_rejected_witness:
  "resolve_logfield_string [''cqu'', ''pssc''] (\<lambda>c t fs. ''resolved'') (Some ()) (Some ''%<bogus_field>'')
     = None
   \<and> resolve_logfield_string [''cqu'', ''pssc''] (\<lambda>c t fs. ''resolved'') (Some ()) (Some ''no fields here'')
     = Some ''no fields here''"
proof -
  have a: "placeholders ''%<bogus_field>'' = [''bogus_field'']" by code_simp
  have b: "placeholders ''no fields here'' = []" by code_simp
  show ?thesis
    using unknown_field_rejected[of "''bogus_field''" "''%<bogus_field>''" "[''cqu'', ''pssc'']"
            "\<lambda>c t fs. ''resolved''" "Some ()" "''no fields here''" "()"]
    by (simp add: a b)
qed

subsection \<open>C1: the two-call length agreement\<close>

lemma marshal_client_req_text_agrees:
  "fst (marshal_client_req_text ctx False) = fst (marshal_client_req_text ctx True)"
  by (simp add: marshal_client_req_text_def marshal_client_req_http_method_def
        marshal_client_req_url_def marshal_client_req_http_version_def Let_def)

text \<open>
  Claim C1 says that the query-mode call and the fill-mode call of every marshal
  function return the same length, in particular for
  \<open>marshal_proxy_protocol_authority\<close>. On a transaction that carries the authority
  \<open>example.com\<close> that function returns 0 when \<open>buf\<close> is null and 11 when it is not
  (and stores the ten characters that \<open>ink_strlcpy\<close> fits below the unpadded length).
\<close>

theorem authority_length_disagrees:
  "marshal_proxy_protocol_authority example_context False = (0, [])
   \<and> marshal_proxy_protocol_authority example_context True = (11, ''example.co'' @ [NUL])"
  by code_simp

subsection \<open>C10: the URL setters\<close>

lemma setter_null_buffer:
  "set_client_req_url ctx None len = Inr ctx"
  "set_client_req_url_canon ctx None len = Inr ctx"
  "set_client_req_unmapped_url_canon ctx None len = Inr ctx"
  "set_client_req_unmapped_url_path ctx None len = Inr ctx"
  "set_client_req_unmapped_url_host ctx None len = Inr ctx"
  by (simp_all add: set_client_req_url_def set_client_req_url_canon_def
        set_client_req_unmapped_url_canon_def set_client_req_unmapped_url_path_def
        set_client_req_unmapped_url_host_def)

lemma unmapped_setter_null_target:
  "m_client_req_unmapped_url_canon_str ctx = None \<Longrightarrow>
     set_client_req_unmapped_url_canon ctx buf len = Inr ctx"
  "m_client_req_unmapped_url_path_str ctx = None \<Longrightarrow>
     set_client_req_unmapped_url_path ctx buf len = Inr ctx"
  "m_client_req_unmapped_url_host_str ctx = None \<Longrightarrow>
     set_client_req_unmapped_url_host ctx buf len = Inr ctx"
  by (simp_all add: set_client_req_unmapped_url_canon_def set_client_req_unmapped_url_path_def
        set_client_req_unmapped_url_host_def split: option.splits)

lemma setter_clamps:
  "set_client_req_url ctx (Some b) len = Inr ctx' \<Longrightarrow>
     m_client_req_url_len ctx' = min len (m_client_req_url_len ctx)"
  "set_client_req_url_canon ctx (Some b) len = Inr ctx' \<Longrightarrow>
     m_client_req_url_canon_len ctx' = min len (m_client_req_url_canon_len ctx)"
  "set_client_req_unmapped_url_canon ctx buf len = Inr ctx' \<Longrightarrow>
     m_client_req_unmapped_url_canon_len ctx' \<le> m_client_req_unmapped_url_canon_len ctx"
  "set_client_req_unmapped_url_path ctx buf len = Inr ctx' \<Longrightarrow>
     m_client_req_unmapped_url_path_len ctx' \<le> m_client_req_unmapped_url_path_len ctx"
  "set_client_req_unmapped_url_host ctx buf len = Inr ctx' \<Longrightarrow>
     m_client_req_unmapped_url_host_len ctx' \<le> m_client_req_unmapped_url_host_len ctx"
  by (auto simp: set_client_req_url_def set_client_req_url_canon_def
        set_client_req_unmapped_url_canon_def set_client_req_unmapped_url_path_def
        set_client_req_unmapped_url_host_def Let_def split: option.splits sum.splits if_splits)

text \<open>
  Claim C10 says that every URL setter is a complete no-op when the target string was
  never populated. \<open>set_client_req_url\<close> and \<open>set_client_req_url_canon\<close> test only
  \<open>buf\<close>: on a context whose client request was not valid at \<open>init\<close> (the string
  pointer null, the length 0) they call \<open>ink_strlcpy\<close> with a null destination and
  size 1, which stores the terminator through the null pointer. The three setters of
  the unmapped URL test the target and return without any effect.
\<close>

theorem url_setter_null_target:
  "set_client_req_url example_context (Some [CHR ''x'', NUL]) 1 = Inl NullPointerWrite
   \<and> set_client_req_url_canon example_context (Some [CHR ''x'', NUL]) 1 = Inl NullPointerWrite
   \<and> set_client_req_unmapped_url_host example_context (Some [CHR ''x'', NUL]) 1
       = Inr example_context"
  by (simp add: set_client_req_url_def set_client_req_url_canon_def
        set_client_req_unmapped_url_host_def example_context_def strlcpy_to_def c_str_def
        ink_strlcpy_def NUL_def)

subsection \<open>C2: overrun safety\<close>

lemma int_to_str_safe:
  "one_byte_short (unmarshal_int_to_str mem p) len r"
  "within_capacity (unmarshal_int_to_str mem p) len r"
  by (auto simp: unmarshal_int_to_str_def Let_def split: option.splits if_splits)

lemma int_to_str_hex_safe:
  "one_byte_short (unmarshal_int_to_str_hex mem p) len r"
  "within_capacity (unmarshal_int_to_str_hex mem p) len r"
  by (auto simp: unmarshal_int_to_str_hex_def Let_def split: option.splits if_splits)

lemma http_status_safe:
  "one_byte_short (unmarshal_http_status mem p) len r"
  "within_capacity (unmarshal_http_status mem p) len r"
  by (auto simp: unmarshal_http_status_def Let_def split: option.splits if_splits)

lemma record_safe:
  "one_byte_short (unmarshal_record mem p) len r"
  "within_capacity (unmarshal_record mem p) len r"
  by (auto simp: unmarshal_record_def Let_def split: option.splits if_splits)

lemma date_str_safe:
  "one_byte_short (unmarshal_int_to_date_str fmt mem p) len r"
  "within_capacity (unmarshal_int_to_date_str fmt mem p) len r"
  by (auto simp: unmarshal_int_to_date_str_def Let_def split: option.splits if_splits)

lemma ttmsf_safe:
  "one_byte_short (unmarshal_ttmsf mem p) len r"
  "within_capacity (unmarshal_ttmsf mem p) len r"
  by (auto simp: unmarshal_ttmsf_def Let_def snprintf_store_def ink_strlcpy_def
        split: option.splits if_splits)

lemma http_version_safe:
  "one_byte_short (unmarshal_http_version mem p) len r"
  "within_capacity (unmarshal_http_version mem p) len r"
  by (auto simp: unmarshal_http_version_def Let_def split: option.splits if_splits)

lemma alias_safe:
  "one_byte_short (\<lambda>len. unmarshal_alias pre mem p len m) len r"
  "within_capacity (\<lambda>len. unmarshal_alias pre mem p len m) len r"
  by (auto simp: unmarshal_alias_def unmarshal_with_map_def asString_def Let_def
        ink_strlcpy_def split: option.splits if_splits prod.splits alias_status.splits)

lemma escape_json_fill_result:
  assumes "escape_json True buf n = Some (r, out)" and "0 \<le> n"
  shows "0 \<le> r \<and> r \<le> n \<and> int (length out) = r"
  using escape_json_fill_bound[of n buf "nat n" 0 "[]" r out] assms
  by (simp add: escape_json_def)

lemma c_memread_length: "c_memread mem q n = Some bs \<Longrightarrow> int (length bs) = n"
  by (auto simp: c_memread_def split: if_splits)

lemma unmarshal_str_shape:
  assumes "unmarshal_str mem p len slice esc = Some r"
  shows "(0 \<le> ret r \<and> int (length (written r)) = ret r \<and> (slice_of slice = None \<longrightarrow> ret r < len))
         \<or> (ret r = - 1 \<and> written r = [])"
proof (cases esc)
  case LOG_ESCAPE_NONE
  then show ?thesis
    using assms
    by (auto simp: unmarshal_str_def Let_def dest: c_memread_length
          split: option.splits prod.splits if_splits)
next
  case LOG_ESCAPE_JSON
  from assms LOG_ESCAPE_JSON obtain val where c: "c_str mem p = Some val"
    by (auto simp: unmarshal_str_def unmarshal_str_json_def split: option.splits)
  show ?thesis
  proof (cases "slice_of slice")
    case None
    then show ?thesis
      using assms LOG_ESCAPE_JSON unmarshal_str_json_plain[OF c, of len]
            unmarshal_str_no_slice[OF None, of mem p len esc]
      by (auto split: if_splits)
  next
    case (Some s)
    then show ?thesis
      using assms LOG_ESCAPE_JSON c_str_query[OF c]
      by (auto simp: unmarshal_str_def unmarshal_str_json_def c Let_def
            dest!: escape_json_fill_result split: option.splits prod.splits if_splits)
  qed
qed

lemma unmarshal_str_other_capacity:
  assumes "unmarshal_str mem p len slice esc = Some r" and "0 \<le> ret r"
  shows "\<exists>r'. unmarshal_str mem p len' slice esc = Some r' \<and> cur r' = cur r
              \<and> (r' = r \<or> (ret r' = - 1 \<and> written r' = []))"
proof (cases esc)
  case LOG_ESCAPE_NONE
  then show ?thesis
    using assms
    by (auto simp: unmarshal_str_def Let_def split: option.splits prod.splits if_splits)
next
  case LOG_ESCAPE_JSON
  from assms LOG_ESCAPE_JSON obtain val where c: "c_str mem p = Some val"
    by (auto simp: unmarshal_str_def unmarshal_str_json_def split: option.splits)
  show ?thesis
  proof (cases "slice_of slice")
    case None
    then show ?thesis
      using assms LOG_ESCAPE_JSON unmarshal_str_json_plain[OF c, of len]
            unmarshal_str_json_plain[OF c, of len']
            unmarshal_str_no_slice[OF None, of mem p len esc]
            unmarshal_str_no_slice[OF None, of mem p len' esc]
      by (auto split: if_splits)
  next
    case (Some s)
    then show ?thesis
      using assms LOG_ESCAPE_JSON c_str_query[OF c]
      by (auto simp: unmarshal_str_def unmarshal_str_json_def c Let_def
            split: option.splits prod.splits if_splits)
  qed
qed

lemma unmarshal_str_safe:
  "one_byte_short (\<lambda>len. unmarshal_str mem p len slice esc) len r"
  "within_capacity (\<lambda>len. unmarshal_str mem p len slice esc) len r"
proof -
  show "one_byte_short (\<lambda>len. unmarshal_str mem p len slice esc) len r"
  proof (intro impI, elim conjE)
    assume a: "unmarshal_str mem p len slice esc = Some r" and b: "1 \<le> ret r"
    show "\<exists>r'. unmarshal_str mem p (ret r - 1) slice esc = Some r' \<and> ret r' = - 1
               \<and> int (length (written r')) \<le> ret r - 1"
    proof (cases esc)
      case LOG_ESCAPE_NONE
      then show ?thesis
        using a b
        by (auto simp: unmarshal_str_def Let_def split: option.splits prod.splits if_splits)
    next
      case LOG_ESCAPE_JSON
      from a LOG_ESCAPE_JSON obtain val where c: "c_str mem p = Some val"
        by (auto simp: unmarshal_str_def unmarshal_str_json_def split: option.splits)
      show ?thesis
      proof (cases "slice_of slice")
        case None
        then show ?thesis
          using a b LOG_ESCAPE_JSON unmarshal_str_json_plain[OF c, of len]
                unmarshal_str_json_plain[OF c, of "ret r - 1"]
                unmarshal_str_no_slice[OF None, of mem p len esc]
                unmarshal_str_no_slice[OF None, of mem p "ret r - 1" esc]
          by (auto split: if_splits)
      next
        case (Some s)
        then show ?thesis
          using a b LOG_ESCAPE_JSON c_str_query[OF c]
          by (auto simp: unmarshal_str_def unmarshal_str_json_def c Let_def
                dest!: escape_json_fill_result split: option.splits prod.splits if_splits)
      qed
    qed
  qed
  show "within_capacity (\<lambda>len. unmarshal_str mem p len slice esc) len r"
  proof (intro impI, elim conjE)
    assume a: "unmarshal_str mem p len slice esc = Some r" and b: "0 \<le> len"
    show "int (length (written r)) \<le> len"
    proof (cases esc)
      case LOG_ESCAPE_NONE
      then show ?thesis
        using a b
        by (auto simp: unmarshal_str_def Let_def dest: c_memread_length
              split: option.splits prod.splits if_splits)
    next
      case LOG_ESCAPE_JSON
      from a LOG_ESCAPE_JSON obtain val where c: "c_str mem p = Some val"
        by (auto simp: unmarshal_str_def unmarshal_str_json_def split: option.splits)
      show ?thesis
      proof (cases "slice_of slice")
        case None
        then show ?thesis
          using a b LOG_ESCAPE_JSON unmarshal_str_json_plain[OF c, of len]
                unmarshal_str_no_slice[OF None, of mem p len esc]
          by (auto split: if_splits)
      next
        case (Some s)
        then show ?thesis
          using a b LOG_ESCAPE_JSON c_str_query[OF c]
          by (auto simp: unmarshal_str_def unmarshal_str_json_def c Let_def
                dest!: escape_json_fill_result split: option.splits prod.splits if_splits)
      qed
    qed
  qed
qed

lemma unmarshal_str_no_slice_capacity:
  assumes "slice_of slice = None" and "unmarshal_str mem p len slice esc = Some r"
    and "0 \<le> ret r" and "ret r < len'"
  shows "unmarshal_str mem p len' slice esc = Some r"
proof -
  from assms(2) obtain val where c: "c_str mem p = Some val"
    by (cases esc) (auto simp: unmarshal_str_def unmarshal_str_json_def split: option.splits)
  show ?thesis
  proof (cases esc)
    case LOG_ESCAPE_NONE
    then show ?thesis
      using assms unmarshal_str_plain[OF c assms(1), of len] unmarshal_str_plain[OF c assms(1), of len']
      by (auto split: if_splits)
  next
    case LOG_ESCAPE_JSON
    then show ?thesis
      using assms unmarshal_str_json_plain[OF c, of len] unmarshal_str_json_plain[OF c, of len']
            unmarshal_str_no_slice[OF assms(1), of mem p len esc]
            unmarshal_str_no_slice[OF assms(1), of mem p len' esc]
      by (auto split: if_splits)
  qed
qed

lemma int_to_str_shape:
  "unmarshal_int_to_str mem p len = Some r \<Longrightarrow>
     (1 \<le> ret r \<and> int (length (written r)) = ret r \<and> ret r < len) \<or> (ret r = - 1 \<and> written r = [])"
proof -
  have "itoa_digits v acc \<noteq> []" for v acc
    by (induction v acc rule: itoa_digits.induct) (subst itoa_digits.simps, simp)
  then have ne: "Suc 0 \<le> length (itoa_digits v acc)" for v acc
    by (simp add: Suc_le_eq)
  assume "unmarshal_int_to_str mem p len = Some r"
  then show ?thesis
    using ne
    by (auto simp: unmarshal_int_to_str_def unmarshal_itoa_def Let_def
          split: option.splits if_splits)
qed

lemma http_version_shape:
  assumes "unmarshal_http_version mem p len = Some r"
  shows "(1 \<le> ret r \<and> int (length (written r)) = ret r \<and> ret r < len)
         \<or> (ret r = - 1 \<and> written r = [])"
proof -
  from assms obtain r1 where u1: "unmarshal_int_to_str mem p (128 - 5) = Some r1"
    by (auto simp: unmarshal_http_version_def split: option.splits)
  show ?thesis
  proof (cases "ret r1 < 0")
    case True
    then show ?thesis using assms u1 by (auto simp: unmarshal_http_version_def)
  next
    case False
    with int_to_str_shape[OF u1] have s1: "1 \<le> ret r1" "int (length (written r1)) = ret r1"
      by auto
    from assms u1 False obtain r2
      where u2: "unmarshal_int_to_str mem (cur r1) (128 - (5 + ret r1 + 1)) = Some r2"
      by (auto simp: unmarshal_http_version_def Let_def split: option.splits)
    show ?thesis
      using assms u1 u2 False s1
      by (auto simp: unmarshal_http_version_def Let_def split: if_splits)
  qed
qed

lemma http_version_one_short:
  assumes "unmarshal_http_version mem p len = Some r" and "0 \<le> ret r"
  shows "unmarshal_http_version mem p (ret r - 1) = Some \<lparr>ret = - 1, written = [], cur = cur r\<rparr>"
  using assms
  by (auto simp: unmarshal_http_version_def Let_def split: option.splits if_splits)

lemma http_text_one_short:
  "one_byte_short (\<lambda>len. unmarshal_http_text mem p len slice esc) len r"
proof (intro impI, elim conjE)
  assume a: "unmarshal_http_text mem p len slice esc = Some r" and b: "1 \<le> ret r"
  from a obtain r1 where u1: "unmarshal_str mem p len None esc = Some r1"
    by (auto simp: unmarshal_http_text_def split: option.splits)
  from a b u1 have n1: "0 \<le> ret r1"
    by (auto simp: unmarshal_http_text_def split: if_splits)
  from a u1 n1 obtain r2
    where u2: "unmarshal_str mem (cur r1) (len - ret r1 - 1) slice esc = Some r2"
    by (auto simp: unmarshal_http_text_def split: option.splits if_splits)
  from a b u1 n1 u2 have n2: "0 \<le> ret r2"
    by (auto simp: unmarshal_http_text_def split: if_splits)
  from a u1 n1 u2 n2 obtain r3
    where u3: "unmarshal_http_version mem (cur r2) (len - ret r1 - ret r2 - 2) = Some r3"
    by (auto simp: unmarshal_http_text_def split: option.splits if_splits)
  from a b u1 n1 u2 n2 u3 have n3: "0 \<le> ret r3" and rr: "ret r = ret r1 + ret r2 + ret r3 + 2"
    by (auto simp: unmarshal_http_text_def split: if_splits)
  from http_version_shape[OF u3] n3 have c1: "1 \<le> ret r3" by auto
  from unmarshal_str_shape[OF u1] n1 have l1: "int (length (written r1)) = ret r1" by auto
  from unmarshal_str_shape[OF u2] n2 have l2: "int (length (written r2)) = ret r2" by auto
  have ns: "slice_of None = None" by (simp add: slice_of_def)
  have v1: "unmarshal_str mem p (ret r - 1) None esc = Some r1"
    using unmarshal_str_no_slice_capacity[OF ns u1 n1, of "ret r - 1"] rr n2 c1 by simp
  have cap2: "ret r - 1 - ret r1 - 1 = ret r2 + ret r3" using rr by simp
  from unmarshal_str_other_capacity[OF u2 n2, of "ret r2 + ret r3"]
  obtain r2' where v2: "unmarshal_str mem (cur r1) (ret r2 + ret r3) slice esc = Some r2'"
    and k2: "cur r2' = cur r2" "r2' = r2 \<or> (ret r2' = - 1 \<and> written r2' = [])"
    by blast
  show "\<exists>r'. unmarshal_http_text mem p (ret r - 1) slice esc = Some r' \<and> ret r' = - 1
             \<and> int (length (written r')) \<le> ret r - 1"
  proof (cases "r2' = r2")
    case True
    have cap3: "ret r - 1 - ret r1 - ret r2 - 2 = ret r3 - 1" using rr by simp
    show ?thesis
      using v1 n1 v2 True n2 http_version_one_short[OF u3 n3] l1 l2 rr c1
      by (simp add: unmarshal_http_text_def cap2 cap3)
  next
    case False
    with k2 have f: "ret r2' = - 1" "written r2' = []" by auto
    show ?thesis
      using v1 n1 v2 f l1 rr n2 c1
      by (simp add: unmarshal_http_text_def cap2)
  qed
qed

lemma http_text_within_capacity:
  assumes ns: "slice_of slice = None"
  shows "within_capacity (\<lambda>len. unmarshal_http_text mem p len slice esc) len r"
proof (intro impI, elim conjE)
  assume a: "unmarshal_http_text mem p len slice esc = Some r" and b: "0 \<le> len"
  have n0: "slice_of None = None" by (simp add: slice_of_def)
  from a obtain r1 where u1: "unmarshal_str mem p len None esc = Some r1"
    by (auto simp: unmarshal_http_text_def split: option.splits)
  from unmarshal_str_shape[OF u1] n0
  have s1: "(0 \<le> ret r1 \<and> int (length (written r1)) = ret r1 \<and> ret r1 < len)
            \<or> (ret r1 = - 1 \<and> written r1 = [])" by simp
  show "int (length (written r)) \<le> len"
  proof (cases "ret r1 < 0")
    case True
    then show ?thesis using a u1 s1 b by (auto simp: unmarshal_http_text_def)
  next
    case False
    with s1 have l1: "int (length (written r1)) = ret r1" "ret r1 < len" "0 \<le> ret r1" by auto
    from a u1 False obtain r2
      where u2: "unmarshal_str mem (cur r1) (len - ret r1 - 1) slice esc = Some r2"
      by (auto simp: unmarshal_http_text_def split: option.splits if_splits)
    from unmarshal_str_shape[OF u2] ns
    have s2: "(0 \<le> ret r2 \<and> int (length (written r2)) = ret r2 \<and> ret r2 < len - ret r1 - 1)
              \<or> (ret r2 = - 1 \<and> written r2 = [])" by simp
    show ?thesis
    proof (cases "ret r2 < 0")
      case True
      then show ?thesis using a u1 u2 False s2 l1 by (auto simp: unmarshal_http_text_def)
    next
      case F2: False
      with s2 have l2: "int (length (written r2)) = ret r2" "ret r2 < len - ret r1 - 1" by auto
      from a u1 False u2 F2 obtain r3
        where u3: "unmarshal_http_version mem (cur r2) (len - ret r1 - ret r2 - 2) = Some r3"
        by (auto simp: unmarshal_http_text_def split: option.splits if_splits)
      from http_version_shape[OF u3]
      have "int (length (written r3)) \<le> len - ret r1 - ret r2 - 2" using l2 by auto
      then show ?thesis
        using a u1 False u2 F2 u3 l1 l2 by (auto simp: unmarshal_http_text_def)
    qed
  qed
qed

text \<open>
  A supporting fact. For \<open>unmarshal_str\<close> (either escape type, any slice),
  \<open>unmarshal_ttmsf\<close>, \<open>unmarshal_int_to_str\<close>, \<open>unmarshal_int_to_str_hex\<close>,
  \<open>unmarshal_http_status\<close>, \<open>unmarshal_http_version\<close>, \<open>unmarshal_record\<close>, the date
  decoders and the five alias decoders: a decode that returns the length \<open>L \<ge> 1\<close> for
  some capacity returns -1 at capacity \<open>L - 1\<close>, and for every capacity \<open>len \<ge> 0\<close> no
  byte is stored at an index at or beyond \<open>len\<close>. \<open>unmarshal_http_text\<close> has the first
  property, and the second only when no slice is active.
\<close>

lemma decoders_within_capacity:
  "one_byte_short (\<lambda>len. unmarshal_str mem p len slice esc) len r
   \<and> within_capacity (\<lambda>len. unmarshal_str mem p len slice esc) len r
   \<and> one_byte_short (unmarshal_ttmsf mem p) len r
   \<and> within_capacity (unmarshal_ttmsf mem p) len r
   \<and> one_byte_short (unmarshal_int_to_str mem p) len r
   \<and> within_capacity (unmarshal_int_to_str mem p) len r
   \<and> one_byte_short (unmarshal_int_to_str_hex mem p) len r
   \<and> within_capacity (unmarshal_int_to_str_hex mem p) len r
   \<and> one_byte_short (unmarshal_http_status mem p) len r
   \<and> within_capacity (unmarshal_http_status mem p) len r
   \<and> one_byte_short (unmarshal_http_version mem p) len r
   \<and> within_capacity (unmarshal_http_version mem p) len r
   \<and> one_byte_short (unmarshal_record mem p) len r
   \<and> within_capacity (unmarshal_record mem p) len r
   \<and> one_byte_short (unmarshal_int_to_date_str fmt mem p) len r
   \<and> within_capacity (unmarshal_int_to_date_str fmt mem p) len r
   \<and> ((W, pre) \<in> set alias_decoders \<longrightarrow>
         one_byte_short (\<lambda>len. W mem p len m) len r
         \<and> within_capacity (\<lambda>len. W mem p len m) len r)
   \<and> one_byte_short (\<lambda>len. unmarshal_http_text mem p len slice esc) len r
   \<and> (slice_of slice = None \<longrightarrow>
         within_capacity (\<lambda>len. unmarshal_http_text mem p len slice esc) len r)"
proof -
  have al: "one_byte_short (\<lambda>len. W mem p len m) len r
            \<and> within_capacity (\<lambda>len. W mem p len m) len r"
    if "(W, pre) \<in> set alias_decoders"
    using alias_decoders_prefix[OF that]
          alias_safe[where pre = pre and mem = mem and p = p and m = m and len = len and r = r]
    by simp
  show ?thesis
    apply (intro conjI)
    subgoal by (rule unmarshal_str_safe)
    subgoal by (rule unmarshal_str_safe)
    subgoal by (rule ttmsf_safe)
    subgoal by (rule ttmsf_safe)
    subgoal by (rule int_to_str_safe)
    subgoal by (rule int_to_str_safe)
    subgoal by (rule int_to_str_hex_safe)
    subgoal by (rule int_to_str_hex_safe)
    subgoal by (rule http_status_safe)
    subgoal by (rule http_status_safe)
    subgoal by (rule http_version_safe)
    subgoal by (rule http_version_safe)
    subgoal by (rule record_safe)
    subgoal by (rule record_safe)
    subgoal by (rule date_str_safe)
    subgoal by (rule date_str_safe)
    subgoal using al by blast
    subgoal by (rule http_text_one_short)
    subgoal using http_text_within_capacity by blast
    done
qed

lemma decoders_within_capacity_example:
  "(\<exists>r'. unmarshal_str [CHR ''G'', CHR ''E'', CHR ''T'', NUL] 0 2 None LOG_ESCAPE_NONE = Some r'
         \<and> ret r' = - 1 \<and> int (length (written r')) \<le> 2)
   \<and> (\<exists>r'. unmarshal_ttmsf [CHR 0x2A, NUL, NUL, NUL, NUL, NUL, NUL, NUL] 0 4 = Some r'
         \<and> ret r' = - 1 \<and> int (length (written r')) \<le> 4)"
proof -
  have a: "unmarshal_str [CHR ''G'', CHR ''E'', CHR ''T'', NUL] 0 64 None LOG_ESCAPE_NONE
             = Some \<lparr>ret = 3, written = ''GET'', cur = 8\<rparr>"
    by code_simp
  have b: "unmarshal_ttmsf [CHR 0x2A, NUL, NUL, NUL, NUL, NUL, NUL, NUL] 0 64
             = Some \<lparr>ret = 5, written = [CHR ''0'', CHR ''.'', CHR ''0'', CHR ''4'', CHR ''2'', NUL],
                     cur = 8\<rparr>"
    by code_simp
  show ?thesis
    using decoders_within_capacity[where mem = "[CHR ''G'', CHR ''E'', CHR ''T'', NUL]" and p = 0
            and slice = None and esc = LOG_ESCAPE_NONE and len = 64
            and r = "\<lparr>ret = 3, written = ''GET'', cur = 8\<rparr>"]
          decoders_within_capacity[where mem = "[CHR 0x2A, NUL, NUL, NUL, NUL, NUL, NUL, NUL]" and p = 0
            and len = 64
            and r = "\<lparr>ret = 5, written = [CHR ''0'', CHR ''.'', CHR ''0'', CHR ''4'', CHR ''2'', NUL],
                      cur = 8\<rparr>"]
          a b
    by simp
qed

lemma unmarshal_ip_to_hex_forwards:
  assumes "unmarshal_ip lay mem p = Some (ip, n, p')" and "ip \<noteq> InvalidIp" and "0 < len"
  shows "unmarshal_ip_to_hex lay ats_ip_to_hex mem p len
           = Some \<lparr>ret = fst (ats_ip_to_hex ip len), written = snd (ats_ip_to_hex ip len),
                   cur = p'\<rparr>"
  using assms by (simp add: unmarshal_ip_to_hex_def split: prod.splits)

lemma unmarshal_ip_invalid_one_short:
  "unmarshal_ip_to_str lay ntop mem p 0 = Some \<lparr>ret = - 1, written = [], cur = p\<rparr>"
  "unmarshal_ip_to_hex lay to_hex mem p 0 = Some \<lparr>ret = - 1, written = [], cur = p\<rparr>"
  by (simp_all add: unmarshal_ip_to_str_def unmarshal_ip_to_hex_def)

text \<open>
  Claim C2 says that no unmarshal function ever stores a byte at an index at or
  beyond the declared capacity. \<open>unmarshal_http_text\<close> does: it stores each of its two
  separators without a test of the capacity, and \<open>unmarshal_str\<close> returns 0 for a slice
  that resolves to no character before it looks at the capacity. On the request
  line \<open>GET /index HTTP/1.1\<close> with the URL under such a slice and a destination of
  capacity 4, the method fills indices 0 to 2, the first separator index 3, and the
  second separator index 4, one past the capacity; the result is -1.
\<close>

theorem http_text_writes_past_capacity:
  "unmarshal_http_text
     ([CHR ''G'', CHR ''E'', CHR ''T'', NUL, NUL, NUL, NUL, NUL,
       CHR ''/'', CHR ''i'', CHR ''n'', CHR ''d'', CHR ''e'', CHR ''x'', NUL, NUL]
      @ marshal_int 1 @ marshal_int 1)
     0 4 (Some \<lparr>m_enable = True, toStrOffset = (\<lambda>n. (0, 0))\<rparr>) LOG_ESCAPE_NONE
     = Some \<lparr>ret = - 1, written = [CHR ''G'', CHR ''E'', CHR ''T'', CHR '' '', CHR '' ''],
             cur = 32\<rparr>
   \<and> (4 :: int) < int (length [CHR ''G'', CHR ''E'', CHR ''T'', CHR '' '', CHR '' ''])"
  by code_simp

end
